theory Spec2Isabelle
  imports Complex_Main "HOL-Library.Word"
begin

section \<open>Content claims: data model\<close>

text \<open>
  A shallow embedding of the content-claims client (\<^verbatim>\<open>packages/core/src/client/index.js\<close>)
  and of the block-index claim fetcher
  (\<^verbatim>\<open>packages/lambda/src/lib/store/block-index.js\<close>).

  JavaScript numbers that hold byte counts and offsets are \<^typ>\<open>int\<close>, a \<^verbatim>\<open>Uint8Array\<close>
  is a list of 8-bit words, \<^verbatim>\<open>undefined\<close> is \<^const>\<open>None\<close>, and a \<^verbatim>\<open>throw\<close> (or a rejected
  promise) is the \<^const>\<open>Inl\<close> branch of a sum.
\<close>

type_synonym bytes = "8 word list"

text \<open>A thrown JavaScript error, identified by its class and its \<^verbatim>\<open>message\<close>.\<close>

datatype error = Error (message: string) | TypeError (message: string)

text \<open>\<^verbatim>\<open>MultihashDigest\<close> and \<^verbatim>\<open>CID\<close> of the multiformats package, as the objects the code reads.\<close>

record multihash_digest =
  mh_code :: nat
  mh_digest :: bytes
  mh_bytes :: bytes

record link =
  cid_version :: nat
  cid_code :: nat
  cid_multihash :: multihash_digest
  cid_bytes :: bytes

record block =
  blk_cid :: link
  blk_bytes :: bytes

text \<open>
  Values of the IPLD data model, as they appear in the named parameters (\<^verbatim>\<open>nb\<close>) of a
  capability: plain objects are association lists from keys to values.
\<close>

datatype ipld =
    INull
  | IBool bool
  | IInt int
  | IString string
  | IBytes bytes
  | IList "ipld list"
  | IMap "(string \<times> ipld) list"
  | ILink link

record capability =
  cap_can :: string
  cap_with :: string
  cap_nb :: "ipld option"

text \<open>An issued invocation before signing, with the blocks attached to it.\<close>

record invocation =
  inv_issuer :: string
  inv_audience :: string
  inv_capabilities :: "capability list"
  inv_expiration :: int
  inv_attached :: "block list"

text \<open>The signed view of an invocation or delegation: its root block and what it carries.\<close>

record delegation =
  d_root :: block
  d_capabilities :: "capability list"
  d_expiration :: int
  d_blocks :: "block list"

record signer =
  did :: string

subsection \<open>Collaborators outside the repository\<close>

text \<open>
  The packages the code calls (multiformats, uint8arrays, cardex, ucanto, the platform \<^verbatim>\<open>URL\<close>
  class, the DynamoDB client) are parameters of the model. A function that can throw returns
  an option or a sum.
  \<^item> \<open>Link_parse\<close>: \<^verbatim>\<open>Link.parse\<close>, \<open>None\<close> when it throws;
  \<^item> \<open>Link_toString\<close>: the string form of a link, as a template literal renders it;
  \<^item> \<open>fromString_base32\<close>: \<^verbatim>\<open>fromString(s, 'base32')\<close>;
  \<^item> \<open>Digest_decode\<close>: \<^verbatim>\<open>Digest.decode\<close>;
  \<^item> \<open>URL_new\<close>: \<^verbatim>\<open>new URL(s)\<close>, given by the string \<^verbatim>\<open>toString()\<close> returns, \<open>None\<close> for an invalid URL;
  \<^item> \<open>sha256_digest\<close>: \<^verbatim>\<open>sha256.digest\<close>;
  \<^item> \<open>index_codec\<close>, \<open>index_write\<close>: \<^verbatim>\<open>MultihashIndexSortedWriter.codec\<close> and the bytes the writer
    emits for the entries added to it;
  \<^item> \<open>issue\<close>: the root block of the signed invocation that \<^verbatim>\<open>buildIPLDView\<close> creates;
  \<^item> \<open>view_archive\<close>, \<open>Delegation_extract\<close>: \<^verbatim>\<open>archive()\<close> of a view and \<^verbatim>\<open>Delegation.extract\<close>, each with its error
    result;
  \<^item> \<open>dynamo_query\<close>: the retried \<^verbatim>\<open>QueryCommand\<close> for a multihash, giving the \<^verbatim>\<open>Items\<close> of the
    result (possibly undefined) or the error of the last attempt.
\<close>

record raw_item =
  carpath :: string
  r_offset :: int
  r_length :: int

record deps =
  Link_parse :: "string \<Rightarrow> link option"
  Link_toString :: "link \<Rightarrow> string"
  fromString_base32 :: "string \<Rightarrow> bytes option"
  Digest_decode :: "bytes \<Rightarrow> multihash_digest option"
  URL_new :: "string \<Rightarrow> string option"
  sha256_digest :: "bytes \<Rightarrow> multihash_digest"
  index_codec :: nat
  index_write :: "(link \<times> int) list \<Rightarrow> bytes"
  issue :: "invocation \<Rightarrow> block"
  view_archive :: "delegation \<Rightarrow> error + bytes"
  Delegation_extract :: "bytes \<Rightarrow> error + delegation"
  dynamo_query :: "bytes \<Rightarrow> error + raw_item list option"

subsection \<open>Unsigned varints and links\<close>

text \<open>
  Modelled from the spec: \<^verbatim>\<open>varint.encodingLength\<close> belongs to the varint package and is
  "the byte length of the varint encoding" of its argument. The unsigned varint of a number
  is its base-128 digits, least significant first, every byte but the last with its high bit
  set. The arguments are sums of byte counts: a negative one, which no position record
  should carry, is taken as zero and has length one.
\<close>

fun varint_encode :: "nat \<Rightarrow> bytes" where
  "varint_encode n =
     (if n < 128 then [of_nat n]
      else of_nat (n mod 128 + 128) # varint_encode (n div 128))"

declare varint_encode.simps [simp del]

definition encodingLength :: "int \<Rightarrow> nat" where
  "encodingLength v = length (varint_encode (nat v))"

text \<open>
  \<^verbatim>\<open>Link.create(code, digest)\<close>: a version 1 link; its bytes are the varints of the version and
  of the codec, then the bytes of the multihash.
\<close>

definition Link_create :: "nat \<Rightarrow> multihash_digest \<Rightarrow> link" where
  "Link_create c digest =
     \<lparr> cid_version = 1, cid_code = c, cid_multihash = digest,
       cid_bytes = varint_encode 1 @ varint_encode c @ mh_bytes digest \<rparr>"

text \<open>
  \<^verbatim>\<open>toV1()\<close>: a version 0 link is rebuilt as version 1 with the same codec and multihash, a
  version 1 link is returned as it is, any other version throws.
\<close>

definition toV1 :: "link \<Rightarrow> link option" where
  "toV1 l =
     (if cid_version l = 0 then Some (Link_create (cid_code l) (cid_multihash l))
      else if cid_version l = 1 then Some l
      else None)"

definition CAR_CODE :: nat where
  "CAR_CODE = 0x0202"

text \<open>The cap on the records a query returns; the query itself is a collaborator.\<close>

definition LIMIT :: nat where
  "LIMIT = 10"

section \<open>The block-index claim fetcher\<close>

subsection \<open>Strings and arrays\<close>

text \<open>\<^verbatim>\<open>s.split(c)\<close> for a one-character separator: never an empty array.\<close>

fun split_on :: "char \<Rightarrow> string \<Rightarrow> string list" where
  "split_on c [] = [[]]"
| "split_on c (x # xs) =
     (if x = c then [] # split_on c xs
      else (case split_on c xs of [] \<Rightarrow> [[x]] | w # ws \<Rightarrow> (x # w) # ws))"

text \<open>\<^verbatim>\<open>parts.join(sep)\<close>.\<close>

fun join :: "string \<Rightarrow> string list \<Rightarrow> string" where
  "join sep [] = []"
| "join sep [w] = w"
| "join sep (w # v # ws) = w @ sep @ join sep (v # ws)"

text \<open>\<^verbatim>\<open>s.startsWith(p)\<close>.\<close>

definition startsWith :: "string \<Rightarrow> string \<Rightarrow> bool" where
  "startsWith s p = (take (length p) s = p)"

text \<open>\<^verbatim>\<open>xs.at(-1)\<close> and \<^verbatim>\<open>xs[0]\<close>: undefined on an empty array.\<close>

definition at_last :: "'a list \<Rightarrow> 'a option" where
  "at_last xs = (case rev xs of [] \<Rightarrow> None | x # _ \<Rightarrow> Some x)"

definition at_first :: "'a list \<Rightarrow> 'a option" where
  "at_first xs = (case xs of [] \<Rightarrow> None | x # _ \<Rightarrow> Some x)"

text \<open>\<^verbatim>\<open>String(v)\<close> and a template literal's rendering of a string that may be undefined.\<close>

definition String_of :: "string option \<Rightarrow> string" where
  "String_of v = (case v of None \<Rightarrow> ''undefined'' | Some s \<Rightarrow> s)"

subsection \<open>Position records and the selection of a location\<close>

record item =
  i_region :: "string option"
  i_bucket :: "string option"
  i_key :: string
  i_offset :: int
  i_length :: int

text \<open>
  The \<^verbatim>\<open>map\<close> callback of \<^verbatim>\<open>get\<close>: \<^verbatim>\<open>[region, bucket, ...rest] = carpath.split('/')\<close> and
  \<^verbatim>\<open>key: rest.join('/')\<close>.
\<close>

definition normalize :: "raw_item \<Rightarrow> item" where
  "normalize r =
     (let parts = split_on CHR ''/'' (carpath r) in
      \<lparr> i_region = at_first parts,
        i_bucket = at_first (drop 1 parts),
        i_key = join ''/'' (drop 2 parts),
        i_offset = r_offset r,
        i_length = r_length r \<rparr>)"

definition in_current_bucket :: "item \<Rightarrow> bool" where
  "in_current_bucket i = (i_bucket i = Some ''carpark-prod-0'')"

definition in_legacy1_raw :: "item \<Rightarrow> bool" where
  "in_legacy1_raw i = (i_bucket i = Some ''dotstorage-prod-1'' \<and> startsWith (i_key i) ''raw'')"

definition in_legacy0_raw :: "item \<Rightarrow> bool" where
  "in_legacy0_raw i = (i_bucket i = Some ''dotstorage-prod-0'' \<and> startsWith (i_key i) ''raw'')"

text \<open>
  The four assignments to \<^verbatim>\<open>item\<close> in \<^verbatim>\<open>get\<close>: \<^verbatim>\<open>items.find(...)\<close>, then \<^verbatim>\<open>item ?? items.find(...)\<close>
  twice, then \<^verbatim>\<open>item ?? items[0]\<close>. \<open>None\<close> is \<^verbatim>\<open>undefined\<close>.
\<close>

definition select_item :: "item list \<Rightarrow> item option" where
  "select_item items =
     (case find in_current_bucket items of
        Some i \<Rightarrow> Some i
      | None \<Rightarrow>
          (case find in_legacy1_raw items of
             Some i \<Rightarrow> Some i
           | None \<Rightarrow>
               (case find in_legacy0_raw items of
                  Some i \<Rightarrow> Some i
                | None \<Rightarrow> at_first items)))"

subsection \<open>The part identifier of a bucket key\<close>

text \<open>
  \<^verbatim>\<open>bucketKeyToPartCID\<close>. The outer \<^verbatim>\<open>try\<close> succeeds when the hash parses as a link whose
  version 1 form has the CAR codec; every throw inside it, the explicit "not a CAR CID"
  included, goes on to the second \<^verbatim>\<open>try\<close>, whose throws are swallowed.
\<close>

definition parse_car_cid :: "deps \<Rightarrow> string \<Rightarrow> link option" where
  "parse_car_cid env hash =
     (case Link_parse env hash of
        None \<Rightarrow> None
      | Some l \<Rightarrow>
          (case toV1 l of
             None \<Rightarrow> None
           | Some cid \<Rightarrow> if cid_code cid = CAR_CODE then Some cid else None))"

definition parse_car_multihash :: "deps \<Rightarrow> string \<Rightarrow> link option" where
  "parse_car_multihash env hash =
     (case fromString_base32 env hash of
        None \<Rightarrow> None
      | Some digestBytes \<Rightarrow>
          (case Digest_decode env digestBytes of
             None \<Rightarrow> None
           | Some digest \<Rightarrow> Some (Link_create CAR_CODE digest)))"

definition bucketKeyToPartCID :: "deps \<Rightarrow> string \<Rightarrow> link option" where
  "bucketKeyToPartCID env key =
     (let filename = String_of (at_last (split_on CHR ''/'' key));
          hash = String_of (at_first (split_on CHR ''.'' filename))
      in case parse_car_cid env hash of
           Some cid \<Rightarrow> Some cid
         | None \<Rightarrow> parse_car_multihash env hash)"

subsection \<open>Building and archiving claims\<close>

text \<open>
  Modelled from the spec: \<^verbatim>\<open>capability/assert.js\<close> is not among the sources. Each claim kind
  has a stable discriminator string, and an invocation is a capability invocation with
  issuer, audience, subject, named parameters and expiration as given.
\<close>

definition Assert_location_can :: string where
  "Assert_location_can = ''assert/location''"

definition Assert_partition_can :: string where
  "Assert_partition_can = ''assert/partition''"

definition Assert_inclusion_can :: string where
  "Assert_inclusion_can = ''assert/inclusion''"

definition Assert_relation_can :: string where
  "Assert_relation_can = ''assert/relation''"

definition Assert_equals_can :: string where
  "Assert_equals_can = ''assert/equals''"

definition invoke :: "string \<Rightarrow> signer \<Rightarrow> signer \<Rightarrow> string \<Rightarrow> ipld \<Rightarrow> int \<Rightarrow> invocation" where
  "invoke can' issuer audience with' nb expiration =
     \<lparr> inv_issuer = did issuer,
       inv_audience = did audience,
       inv_capabilities = [\<lparr> cap_can = can', cap_with = with', cap_nb = Some nb \<rparr>],
       inv_expiration = expiration,
       inv_attached = [] \<rparr>"

text \<open>\<^verbatim>\<open>invocation.attach(block)\<close>.\<close>

definition attach :: "invocation \<Rightarrow> block \<Rightarrow> invocation" where
  "attach invc b = invc\<lparr> inv_attached := inv_attached invc @ [b] \<rparr>"

text \<open>
  \<^verbatim>\<open>invocation.buildIPLDView()\<close>: the view has the root block the framework issues and the
  capabilities, expiration and attached blocks of the invocation.
\<close>

definition buildIPLDView :: "deps \<Rightarrow> invocation \<Rightarrow> delegation" where
  "buildIPLDView env invc =
     \<lparr> d_root = issue env invc,
       d_capabilities = inv_capabilities invc,
       d_expiration = inv_expiration invc,
       d_blocks = inv_attached invc \<rparr>"

text \<open>The record \<^verbatim>\<open>buildClaim\<close> returns (\<^verbatim>\<open>Claim\<close> of \<^verbatim>\<open>server/api.ts\<close>, with \<^verbatim>\<open>value\<close>).\<close>

record claim_record =
  cr_claim :: link
  cr_bytes :: bytes
  cr_content :: multihash_digest
  cr_expiration :: int
  cr_value :: "capability option"

definition buildClaim :: "deps \<Rightarrow> link \<Rightarrow> invocation \<Rightarrow> error + claim_record" where
  "buildClaim env content invc =
     (let ipldView = buildIPLDView env invc in
      case view_archive env ipldView of
        Inl cause \<Rightarrow> Inl (Error ''failed to archive invocation'')
      | Inr bs \<Rightarrow>
          Inr \<lparr> cr_claim = blk_cid (d_root ipldView),
                cr_bytes = bs,
                cr_content = cid_multihash content,
                cr_expiration = d_expiration ipldView,
                cr_value = at_first (inv_capabilities invc) \<rparr>)"

definition location_invocation ::
  "signer \<Rightarrow> link \<Rightarrow> string list \<Rightarrow> int \<Rightarrow> int \<Rightarrow> int \<Rightarrow> invocation" where
  "location_invocation sg content location offset len expiration =
     invoke Assert_location_can sg sg (did sg)
       (IMap [(''content'', ILink content),
              (''location'', IList (map IString location)),
              (''range'', IMap [(''offset'', IInt offset), (''length'', IInt len)])])
       expiration"

definition buildLocationClaim ::
  "deps \<Rightarrow> signer \<Rightarrow> link \<Rightarrow> string list \<Rightarrow> int \<Rightarrow> int \<Rightarrow> int \<Rightarrow> error + claim_record" where
  "buildLocationClaim env sg content location offset len expiration =
     buildClaim env content (location_invocation sg content location offset len expiration)"

text \<open>
  \<^verbatim>\<open>encodeIndex\<close>: one entry is added to the writer; the index block is the bytes written,
  under a link of the index codec and their sha256 digest.
\<close>

definition encodeIndex :: "deps \<Rightarrow> link \<Rightarrow> int \<Rightarrow> block" where
  "encodeIndex env content offset =
     (let bs = index_write env [(content, offset)];
          digest = sha256_digest env bs
      in \<lparr> blk_cid = Link_create (index_codec env) digest, blk_bytes = bs \<rparr>)"

text \<open>The first line of \<^verbatim>\<open>buildRelationClaim\<close>.\<close>

definition carOffset :: "link \<Rightarrow> int \<Rightarrow> int \<Rightarrow> int" where
  "carOffset content offset len =
     offset - (int (encodingLength (int (length (cid_bytes content)) + len))
               + int (length (cid_bytes content)))"

definition relation_invocation ::
  "deps \<Rightarrow> signer \<Rightarrow> link \<Rightarrow> link \<Rightarrow> int \<Rightarrow> int \<Rightarrow> int \<Rightarrow> invocation" where
  "relation_invocation env sg content part offset len expiration =
     (let index = encodeIndex env content (carOffset content offset len);
          invocation =
            invoke Assert_relation_can sg sg (did sg)
              (IMap [(''content'', ILink content),
                     (''children'', IList []),
                     (''parts'',
                        IList [IMap [(''content'', ILink part),
                                     (''includes'', IMap [(''content'', ILink (blk_cid index))])]])])
              expiration
      in attach invocation index)"

definition buildRelationClaim ::
  "deps \<Rightarrow> signer \<Rightarrow> link \<Rightarrow> link \<Rightarrow> int \<Rightarrow> int \<Rightarrow> int \<Rightarrow> error + claim_record" where
  "buildRelationClaim env sg content part offset len expiration =
     buildClaim env content (relation_invocation env sg content part offset len expiration)"

text \<open>\<^verbatim>\<open>Promise.all\<close>: the results in order, or the first rejection.\<close>

fun Promise_all :: "(error + 'a) list \<Rightarrow> error + 'a list" where
  "Promise_all [] = Inr []"
| "Promise_all (Inl e # ps) = Inl e"
| "Promise_all (Inr x # ps) = (case Promise_all ps of Inl e \<Rightarrow> Inl e | Inr xs \<Rightarrow> Inr (x # xs))"

text \<open>
  \<^verbatim>\<open>Math.ceil((Date.now() / 1000) + (60 * 60))\<close>, for \<^verbatim>\<open>Date.now()\<close> in milliseconds.
\<close>

definition expire_in_an_hour :: "int \<Rightarrow> int" where
  "expire_in_an_hour now = \<lceil>(of_int now / 1000 :: real) + (60 * 60)\<rceil>"

text \<open>
  \<^verbatim>\<open>BlockIndexClaimFetcher.get\<close>, for the signer of the fetcher and the time \<open>now\<close> that
  \<^verbatim>\<open>Date.now()\<close> returns.
\<close>

definition get :: "deps \<Rightarrow> signer \<Rightarrow> int \<Rightarrow> link \<Rightarrow> error + claim_record list" where
  "get env sg now content =
     (case dynamo_query env (mh_bytes (cid_multihash content)) of
        Inl err \<Rightarrow> Inl err
      | Inr result_Items \<Rightarrow>
          (let items = map normalize (case result_Items of None \<Rightarrow> [] | Some rs \<Rightarrow> rs) in
           case select_item items of
             None \<Rightarrow> Inr []
           | Some item \<Rightarrow>
               (let part = bucketKeyToPartCID env (i_key item) in
                case URL_new env (''https://'' @ String_of (i_bucket item)
                                   @ ''.s3.amazonaws.com/'' @ i_key item) of
                  None \<Rightarrow> Inl (TypeError ''Invalid URL'')
                | Some url \<Rightarrow>
                    (let location = [url];
                         expiration = expire_in_an_hour now
                     in Promise_all
                          (buildLocationClaim env sg content location
                             (i_offset item) (i_length item) expiration
                           # (case part of
                                Some p \<Rightarrow>
                                  [buildRelationClaim env sg content p
                                     (i_offset item) (i_length item) expiration]
                              | None \<Rightarrow> []))))))"

section \<open>The client\<close>

subsection \<open>Decoding a claim\<close>

text \<open>
  The truthiness of a value, \<^verbatim>\<open>typeof v === 'object'\<close> and \<^verbatim>\<open>k in v\<close>, on the values a
  decoded capability can carry in \<^verbatim>\<open>nb\<close>. Null, byte arrays, arrays and links are objects
  too; only a plain object has the keys of its entries.
\<close>

definition falsy :: "ipld option \<Rightarrow> bool" where
  "falsy v =
     (case v of
        None \<Rightarrow> True
      | Some INull \<Rightarrow> True
      | Some (IBool b) \<Rightarrow> \<not> b
      | Some (IInt n) \<Rightarrow> n = 0
      | Some (IString s) \<Rightarrow> s = []
      | Some _ \<Rightarrow> False)"

definition typeof_object :: "ipld option \<Rightarrow> bool" where
  "typeof_object v =
     (case v of
        Some INull \<Rightarrow> True
      | Some (IBytes _) \<Rightarrow> True
      | Some (IList _) \<Rightarrow> True
      | Some (IMap _) \<Rightarrow> True
      | Some (ILink _) \<Rightarrow> True
      | _ \<Rightarrow> False)"

definition has_property :: "string \<Rightarrow> ipld option \<Rightarrow> bool" where
  "has_property k v = (case v of Some (IMap m) \<Rightarrow> k \<in> set (map fst m) | _ \<Rightarrow> False)"

text \<open>\<^verbatim>\<open>claimType\<close>.\<close>

definition claimType :: "string \<Rightarrow> string" where
  "claimType can' =
     (if can' = Assert_location_can then Assert_location_can
      else if can' = Assert_partition_can then Assert_partition_can
      else if can' = Assert_inclusion_can then Assert_inclusion_can
      else if can' = Assert_relation_can then Assert_relation_can
      else if can' = Assert_equals_can then Assert_equals_can
      else ''unknown'')"

text \<open>
  The object \<^verbatim>\<open>decode\<close> returns: the entries spread from \<^verbatim>\<open>cap.nb\<close> that the three keys
  written after the spread do not replace, then \<^verbatim>\<open>type\<close>, the blocks \<^verbatim>\<open>export()\<close> yields and
  the bytes \<^verbatim>\<open>archive()\<close> resolves to.
\<close>

record claim =
  c_nb :: "(string \<times> ipld) list"
  c_type :: string
  c_export :: "block list"
  c_archive :: bytes

definition spread :: "ipld option \<Rightarrow> (string \<times> ipld) list" where
  "spread v = (case v of Some (IMap m) \<Rightarrow> m | _ \<Rightarrow> [])"

definition export :: "delegation \<Rightarrow> block list" where
  "export d = d_blocks d @ [d_root d]"

definition decode :: "deps \<Rightarrow> bytes \<Rightarrow> error + claim" where
  "decode env bs =
     (case Delegation_extract env bs of
        Inl cause \<Rightarrow> Inl (Error ''failed to decode claim'')
      | Inr delegation \<Rightarrow>
          (case at_first (d_capabilities delegation) of
             None \<Rightarrow> Inl (TypeError ''Cannot read properties of undefined'')
           | Some cap \<Rightarrow>
               if falsy (cap_nb cap) \<or> \<not> typeof_object (cap_nb cap)
                  \<or> \<not> has_property ''content'' (cap_nb cap)
               then Inl (Error ''invalid claim'')
               else Inr \<lparr> c_nb = filter (\<lambda>(k, v). k \<noteq> ''type'' \<and> k \<noteq> ''export'' \<and> k \<noteq> ''archive'')
                                   (spread (cap_nb cap)),
                          c_type = claimType (cap_can cap),
                          c_export = export delegation,
                          c_archive = bs \<rparr>))"

subsection \<open>Reading claims from a response\<close>

text \<open>
  The response of \<^verbatim>\<open>fetch\<close>. Its body is given as what the CAR reader makes of it: the
  blocks it yields, in order, and how the stream ends, normally or with the error that the
  reader raises behind them. The sink takes one block at a time and its \<^verbatim>\<open>write\<close> is
  asynchronous, while the reader runs ahead of it: the error of a stream can reach the pipe
  before the sink has taken every block. \<open>car_error_at = Some k\<close> says that it arrives when
  the sink has taken \<open>k\<close> of the blocks and before the write of the last of them has settled;
  the blocks behind are dropped with the queue of the reader. \<open>None\<close> says that it arrives
  after every block has been written.
\<close>

record car_stream =
  car_blocks :: "block list"
  car_error :: "error option"
  car_error_at :: "nat option"

record response =
  res_ok :: bool
  res_status :: nat
  res_body :: "car_stream option"

text \<open>A number in a template literal.\<close>

fun digits :: "nat \<Rightarrow> string" where
  "digits n = (if n < 10 then [char_of (48 + n)] else digits (n div 10) @ [char_of (48 + n mod 10)])"

declare digits.simps [simp del]

text \<open>The \<^verbatim>\<open>write\<close> callback of the sink, on the claims collected so far.\<close>

definition write_block :: "deps \<Rightarrow> claim list \<Rightarrow> block \<Rightarrow> error + claim list" where
  "write_block env claims blk =
     (let digest = sha256_digest env (blk_bytes blk) in
      if mh_bytes (cid_multihash (blk_cid blk)) \<noteq> mh_bytes digest
      then Inl (Error (''hash verification failed: '' @ Link_toString env (blk_cid blk)))
      else (case decode env (blk_bytes blk) of
              Inl err \<Rightarrow> Inl err
            | Inr c \<Rightarrow> Inr (claims @ [c])))"

text \<open>
  The error of the stream reaches the pipe while a write is pending, and the blocks that the
  sink takes before the pipe ends.
\<close>

definition overtaken :: "car_stream \<Rightarrow> bool" where
  "overtaken body = (car_error body \<noteq> None \<and> car_error_at body \<noteq> None)"

definition sink_blocks :: "car_stream \<Rightarrow> block list" where
  "sink_blocks body =
     (case car_error body of
        None \<Rightarrow> car_blocks body
      | Some err \<Rightarrow>
          (case car_error_at body of
             None \<Rightarrow> car_blocks body
           | Some k \<Rightarrow> take k (car_blocks body)))"

text \<open>
  \<^verbatim>\<open>pipeTo\<close>, on the blocks that the sink takes: they are written one after the other. When
  every write succeeds the pipe ends as the stream does. A write that throws ends the pipe
  with its error, also when the stream ends normally behind it. The one exception is the
  last block taken from a stream whose error overtook the write: the pipe is already shutting
  down with the error of the stream, waits for the pending write to settle and ends with the
  error of the stream, whatever the write did. The claims collected are returned with the
  outcome, as the \<^verbatim>\<open>catch\<close> clause of \<^verbatim>\<open>read\<close> sees them.
\<close>

fun pipeTo ::
  "deps \<Rightarrow> block list \<Rightarrow> error option \<Rightarrow> bool \<Rightarrow> claim list \<Rightarrow> claim list \<times> error option" where
  "pipeTo env [] end' overtakes claims = (claims, end')"
| "pipeTo env (b # bs) end' overtakes claims =
     (case write_block env claims b of
        Inl err \<Rightarrow>
          (claims,
           Some (case end' of
                   Some stream_err \<Rightarrow> if bs = [] \<and> overtakes then stream_err else err
                 | None \<Rightarrow> err))
      | Inr claims' \<Rightarrow> pipeTo env bs end' overtakes claims')"

definition read :: "deps \<Rightarrow> response \<Rightarrow> error + claim list" where
  "read env res =
     (if \<not> res_ok res
      then Inl (Error (''unexpected service status: '' @ digits (res_status res)))
      else (case res_body res of
              None \<Rightarrow> Inl (Error ''missing response body'')
            | Some body \<Rightarrow>
                (case pipeTo env (sink_blocks body) (car_error body) (overtaken body) [] of
                   (claims, None) \<Rightarrow> Inr claims
                 | (claims, Some err) \<Rightarrow>
                     if claims = [] \<and> message err = ''unexpected end of data''
                     then Inr claims
                     else Inl err)))"

section \<open>Notions used to state the properties\<close>

text \<open>\<open>x\<close> is the first element of \<open>xs\<close> that satisfies \<open>P\<close>.\<close>

definition first_such :: "('a \<Rightarrow> bool) \<Rightarrow> 'a list \<Rightarrow> 'a \<Rightarrow> bool" where
  "first_such P xs x = (\<exists>pre post. xs = pre @ x # post \<and> P x \<and> (\<forall>y \<in> set pre. \<not> P y))"

text \<open>
  Modelled from the spec: the archive of the capability framework (ucanto, outside the
  repository) is "a self-contained archive ... from which \<^verbatim>\<open>claimId\<close> and \<^verbatim>\<open>value\<close> are
  independently re-derivable": extracting the bytes of an archive gives back the view that
  was archived.
\<close>

definition archive_round_trips :: "deps \<Rightarrow> bool" where
  "archive_round_trips env =
     (\<forall>d bs. view_archive env d = Inr bs \<longrightarrow> Delegation_extract env bs = Inr d)"

text \<open>The subject of an invocation: the link under \<^verbatim>\<open>content\<close> in the \<^verbatim>\<open>nb\<close> of its first capability.\<close>

definition subject_of :: "capability list \<Rightarrow> link option" where
  "subject_of caps =
     (case at_first caps of
        None \<Rightarrow> None
      | Some cap \<Rightarrow>
          (case map_of (spread (cap_nb cap)) ''content'' of
             Some (ILink l) \<Rightarrow> Some l
           | _ \<Rightarrow> None))"

text \<open>
  An equals claim as the test "should claim equals" issues it:
  \<^verbatim>\<open>Assert.equals.invoke({ issuer, audience, with, nb: { content, equals } })\<close>.
\<close>

definition equals_invocation :: "signer \<Rightarrow> link \<Rightarrow> link \<Rightarrow> int \<Rightarrow> invocation" where
  "equals_invocation sg content equals' expiration =
     invoke Assert_equals_can sg sg (did sg)
       (IMap [(''content'', ILink content), (''equals'', ILink equals')])
       expiration"



text \<open>The check of \<^verbatim>\<open>read\<close> on a block: the sha256 digest of its bytes is the multihash of its link.\<close>

definition hash_verified :: "deps \<Rightarrow> block \<Rightarrow> bool" where
  "hash_verified env blk =
     (mh_bytes (cid_multihash (blk_cid blk)) = mh_bytes (sha256_digest env (blk_bytes blk)))"

text \<open>Claim \<open>c\<close> is what \<^verbatim>\<open>read\<close> makes of block \<open>blk\<close>: the block passes the check and decodes to \<open>c\<close>.\<close>

definition decoded :: "deps \<Rightarrow> block \<Rightarrow> claim \<Rightarrow> bool" where
  "decoded env blk c = (hash_verified env blk \<and> decode env (blk_bytes blk) = Inr c)"

text \<open>
  The record is the archive of a view that carries exactly one attached block: the index
  written from the single entry \<open>entry\<close>, under the link of the index codec and the digest of
  its bytes.
\<close>

definition archived_index :: "deps \<Rightarrow> claim_record \<Rightarrow> link \<times> int \<Rightarrow> bool" where
  "archived_index env r entry =
     (\<exists>v index. view_archive env v = Inr (cr_bytes r)
        \<and> blk_cid (d_root v) = cr_claim r
        \<and> d_blocks v = [index]
        \<and> blk_bytes index = index_write env [entry]
        \<and> blk_cid index = Link_create (index_codec env) (sha256_digest env (blk_bytes index)))"

text \<open>The five discriminators the client knows.\<close>

definition known_kinds :: "string set" where
  "known_kinds =
     {''assert/location'', ''assert/partition'', ''assert/inclusion'', ''assert/relation'',
      ''assert/equals''}"

subsection \<open>An instance of the collaborators\<close>

text \<open>
  A small instance of the collaborators, to run the definitions on concrete inputs: a
  two-byte checksum that stands for sha256, a parser that knows one CAR link and one raw link, an
  archive that knows four views, and a position index with three subjects.
\<close>

definition ex_digest :: "bytes \<Rightarrow> multihash_digest" where
  "ex_digest bs =
     \<lparr> mh_code = 0x12, mh_digest = [of_nat (length bs), sum_list bs],
       mh_bytes = [0x12, 0x02, of_nat (length bs), sum_list bs] \<rparr>"

definition ex_sha256 :: multihash_digest where
  "ex_sha256 = \<lparr> mh_code = 0x12, mh_digest = replicate 32 0xAB,
                 mh_bytes = 0x12 # 0x20 # replicate 32 0xAB \<rparr>"

definition ex_content :: link where
  "ex_content = Link_create 0x55 ex_sha256"

definition ex_other :: link where
  "ex_other = Link_create 0x55 (ex_digest [1, 2, 3])"

definition ex_car :: link where
  "ex_car = Link_create 0x0202 (ex_digest [7])"

definition ex_legacy :: link where
  "ex_legacy = Link_create 0x55 (ex_digest [4, 4])"

definition ex_signer :: signer where
  "ex_signer = \<lparr> did = ''did:web:claims.web3.storage'' \<rparr>"

definition ex_issue :: "invocation \<Rightarrow> block" where
  "ex_issue invc =
     (let bs = [of_nat (length (inv_capabilities invc)), of_int (inv_expiration invc)]
      in \<lparr> blk_cid = Link_create 0x0129 (ex_digest bs), blk_bytes = bs \<rparr>)"

definition ex_index_write :: "(link \<times> int) list \<Rightarrow> bytes" where
  "ex_index_write es = concat (map (\<lambda>(l, off). mh_bytes (cid_multihash l) @ [of_int off]) es)"

definition ex_base :: deps where
  "ex_base =
     \<lparr> Link_parse = (\<lambda>s. if s = ''bagbaieraexample'' then Some ex_car
                          else if s = ''bafkreiexample'' then Some ex_other else None),
       Link_toString = (\<lambda>l. if l = ex_car then ''bagbaieraexample''
                             else if l = ex_other then ''bafkreiexample'' else ''bafyexample''),
       fromString_base32 = (\<lambda>s. if s = ''ciqexample'' then Some [0x12, 0x02, 0xCA, 0xFE] else None),
       Digest_decode =
         (\<lambda>bs. case bs of
                  c # n # d \<Rightarrow>
                    if unat n = length d
                    then Some \<lparr> mh_code = unat c, mh_digest = d, mh_bytes = bs \<rparr>
                    else None
                | _ \<Rightarrow> None),
       URL_new = Some,
       sha256_digest = ex_digest,
       index_codec = 0x0401,
       index_write = ex_index_write,
       issue = ex_issue,
       view_archive = (\<lambda>d. Inl (Error ''no archive'')),
       Delegation_extract = (\<lambda>bs. Inl (Error ''no archive'')),
       dynamo_query = (\<lambda>mh. Inr None) \<rparr>"

definition ex_items :: "raw_item list" where
  "ex_items =
     [\<lparr> carpath = ''us-east-2/dotstorage-prod-0/complete/bafyexample.car'',
        r_offset = 10, r_length = 40 \<rparr>,
      \<lparr> carpath = ''us-east-2/dotstorage-prod-1/raw/bafyexample/315/ciqexample.car'',
        r_offset = 150, r_length = 40 \<rparr>,
      \<lparr> carpath = ''auto/carpark-prod-0/bagbaieraexample/bagbaieraexample.car'',
        r_offset = 200, r_length = 40 \<rparr>]"

definition ex_now :: int where
  "ex_now = 1700000000001"

definition ex_location_view :: delegation where
  "ex_location_view =
     buildIPLDView ex_base
       (location_invocation ex_signer ex_content
          [''https://carpark-prod-0.s3.amazonaws.com/bagbaieraexample/bagbaieraexample.car'']
          200 40 (expire_in_an_hour ex_now))"

definition ex_relation_view :: delegation where
  "ex_relation_view =
     buildIPLDView ex_base
       (relation_invocation ex_base ex_signer ex_content ex_car 200 40 (expire_in_an_hour ex_now))"

definition ex_legacy_items :: "raw_item list" where
  "ex_legacy_items =
     [\<lparr> carpath = ''us-east-2/dotstorage-prod-0/complete/bafyexample.car'',
        r_offset = 10, r_length = 40 \<rparr>]"

definition ex_legacy_view :: delegation where
  "ex_legacy_view =
     buildIPLDView ex_base
       (location_invocation ex_signer ex_legacy
          [''https://dotstorage-prod-0.s3.amazonaws.com/complete/bafyexample.car'']
          10 40 (expire_in_an_hour ex_now))"

definition ex_equals_view :: delegation where
  "ex_equals_view = buildIPLDView ex_base (equals_invocation ex_signer ex_content ex_other 1700003601)"

text \<open>
  Three views that no builder of the repository issues: an equals capability without
  \<^verbatim>\<open>equals\<close>, one without \<^verbatim>\<open>content\<close>, and a capability of a kind the client does not know.
\<close>

definition ex_no_content_view :: delegation where
  "ex_no_content_view =
     buildIPLDView ex_base
       (invoke Assert_equals_can ex_signer ex_signer (did ex_signer)
          (IMap [(''equals'', ILink ex_other)]) 1700003601)"

definition ex_partial_equals_view :: delegation where
  "ex_partial_equals_view =
     buildIPLDView ex_base
       (invoke Assert_equals_can ex_signer ex_signer (did ex_signer)
          (IMap [(''content'', ILink ex_content)]) 1700003601)"

definition ex_future_view :: delegation where
  "ex_future_view =
     buildIPLDView ex_base
       (invoke ''assert/descriptor'' ex_signer ex_signer (did ex_signer)
          (IMap [(''content'', ILink ex_content), (''note'', IString ''opaque'')]) 1700003601)"

text \<open>Blocks of a response: the link of a block carries the digest of the given bytes.\<close>

definition ex_block :: "bytes \<Rightarrow> bytes \<Rightarrow> block" where
  "ex_block hashed bs = \<lparr> blk_cid = Link_create 0x0202 (ex_digest hashed), blk_bytes = bs \<rparr>"

definition ex_response :: "block list \<Rightarrow> error option \<Rightarrow> response" where
  "ex_response blocks end' =
     \<lparr> res_ok = True, res_status = 200,
       res_body = Some \<lparr> car_blocks = blocks, car_error = end', car_error_at = None \<rparr> \<rparr>"

text \<open>A response cut short, whose error reaches the pipe when the sink has taken \<open>k\<close> blocks.\<close>

definition ex_cut_response :: "block list \<Rightarrow> error \<Rightarrow> nat \<Rightarrow> response" where
  "ex_cut_response blocks err k =
     \<lparr> res_ok = True, res_status = 200,
       res_body = Some \<lparr> car_blocks = blocks, car_error = Some err, car_error_at = Some k \<rparr> \<rparr>"

definition ex_archive :: "delegation \<Rightarrow> error + bytes" where
  "ex_archive d =
     (if d = ex_location_view then Inr [1]
      else if d = ex_relation_view then Inr [2]
      else if d = ex_equals_view then Inr [3]
      else if d = ex_legacy_view then Inr [6]
      else Inl (Error ''cannot encode''))"

definition ex_extract :: "bytes \<Rightarrow> error + delegation" where
  "ex_extract bs =
     (if bs = [1] then Inr ex_location_view
      else if bs = [2] then Inr ex_relation_view
      else if bs = [3] then Inr ex_equals_view
      else if bs = [4] then Inr ex_partial_equals_view
      else if bs = [5] then Inr ex_future_view
      else if bs = [6] then Inr ex_legacy_view
      else if bs = [7] then Inr ex_no_content_view
      else Inl (Error ''cannot decode''))"

text \<open>The same collaborators with an archive that never fails: the bytes of the root block.\<close>

definition ex_archiving :: deps where
  "ex_archiving = ex_base \<lparr> view_archive := (\<lambda>d. Inr (blk_bytes (d_root d))) \<rparr>"

definition ex_deps :: deps where
  "ex_deps =
     ex_base
       \<lparr> view_archive := ex_archive,
         Delegation_extract := ex_extract,
         dynamo_query :=
           (\<lambda>mh. if mh = mh_bytes (cid_multihash ex_content) then Inr (Some ex_items)
                 else if mh = mh_bytes (cid_multihash ex_legacy) then Inr (Some ex_legacy_items)
                 else if mh = mh_bytes (cid_multihash ex_other) then Inr (Some [])
                 else Inr None) \<rparr>"

section \<open>Properties of the block-index claim fetcher\<close>

subsection \<open>The length of a varint\<close>

lemma varint_encode_small: "n < 128 \<Longrightarrow> varint_encode n = [of_nat n]"
  by (simp add: varint_encode.simps)

lemma varint_encode_large:
  "128 \<le> n \<Longrightarrow> varint_encode n = of_nat (n mod 128 + 128) # varint_encode (n div 128)"
  by (simp add: varint_encode.simps)

lemma encodingLength_one: "v < 128 \<Longrightarrow> encodingLength v = 1"
  by (simp add: encodingLength_def varint_encode_small)

lemma encodingLength_two:
  assumes "128 \<le> v" and "v < 16384"
  shows "encodingLength v = 2"
proof -
  have big: "128 \<le> nat v" using assms by simp
  have small: "nat v div 128 < 128" using assms by simp
  show ?thesis
    by (simp add: encodingLength_def varint_encode_large [OF big] varint_encode_small [OF small])
qed

lemma encodingLength_gt_one: "128 \<le> v \<Longrightarrow> 1 < encodingLength v"
proof -
  assume "128 \<le> v"
  then have big: "128 \<le> nat v" by simp
  have "0 < length (varint_encode (nat v div 128))"
    by (subst varint_encode.simps) simp
  then show ?thesis
    by (simp add: encodingLength_def varint_encode_large [OF big])
qed

lemma relation_invocation_attached:
  "inv_attached (relation_invocation env sg content part offset len expiration) =
     [encodeIndex env content (carOffset content offset len)]"
  by (simp add: relation_invocation_def Let_def attach_def invoke_def)

lemma length_ex_content: "length (cid_bytes ex_content) = 36"
  by (simp add: ex_content_def Link_create_def ex_sha256_def varint_encode_small)

subsection \<open>Splitting paths\<close>

text \<open>
  A split is never empty, so the region of a record, the file name of a key and the hash
  segment of a file name are always defined.
\<close>

lemma split_on_nonempty: "split_on c s \<noteq> []"
  by (induction s) (auto split: list.splits)

lemma at_first_split_on: "\<exists>w. at_first (split_on c s) = Some w"
  using split_on_nonempty [of c s] by (cases "split_on c s") (simp_all add: at_first_def)

lemma at_last_split_on: "\<exists>w. at_last (split_on c s) = Some w"
  using split_on_nonempty [of c s] by (cases "rev (split_on c s)") (simp_all add: at_last_def)

lemma join_split_on: "join [c] (split_on c s) = s"
proof (induction s)
  case Nil
  then show ?case by simp
next
  case (Cons x xs)
  obtain w ws where ws: "split_on c xs = w # ws"
    using split_on_nonempty [of c xs] by (cases "split_on c xs") simp_all
  with Cons show ?case by (cases ws) auto
qed

subsection \<open>The selection of a location\<close>

lemma find_first_such: "find P xs = Some x \<Longrightarrow> first_such P xs x"
proof (induction xs)
  case Nil
  then show ?case by simp
next
  case (Cons a xs)
  show ?case
  proof (cases "P a")
    case True
    with Cons.prems have "x = a" by simp
    with True have "a # xs = [] @ x # xs \<and> P x \<and> (\<forall>y \<in> set []. \<not> P y)" by simp
    then show ?thesis unfolding first_such_def by blast
  next
    case False
    with Cons.prems have "find P xs = Some x" by simp
    then have "first_such P xs x" by (rule Cons.IH)
    then obtain pre post where d: "xs = pre @ x # post" "P x" "\<forall>y \<in> set pre. \<not> P y"
      unfolding first_such_def by blast
    with False have "a # xs = (a # pre) @ x # post \<and> P x \<and> (\<forall>y \<in> set (a # pre). \<not> P y)"
      by simp
    then show ?thesis unfolding first_such_def by blast
  qed
qed

lemma at_first_Cons: "xs \<noteq> [] \<Longrightarrow> at_first xs = Some (hd xs)"
  by (cases xs) (simp_all add: at_first_def)

text \<open>
  C3. For a non-empty list of normalized candidates the selection returns a candidate of the
  list, first match wins, in this order: the first candidate in bucket \<^verbatim>\<open>carpark-prod-0\<close>;
  else the first in \<^verbatim>\<open>dotstorage-prod-1\<close> whose key starts with \<^verbatim>\<open>raw\<close>; else the first in
  \<^verbatim>\<open>dotstorage-prod-0\<close> whose key starts with \<^verbatim>\<open>raw\<close>; else the first candidate of the list.
  Whenever a candidate of the current bucket is present, the selected one is in the current
  bucket.
\<close>

theorem select_item_first_match_wins:
  assumes "items \<noteq> []"
  shows "\<exists>it. select_item items = Some it \<and> it \<in> set items
           \<and> ((\<exists>x \<in> set items. in_current_bucket x) \<longrightarrow> in_current_bucket it)
           \<and> (if \<exists>x \<in> set items. in_current_bucket x
                 then first_such in_current_bucket items it
               else if \<exists>x \<in> set items. in_legacy1_raw x
                 then first_such in_legacy1_raw items it
               else if \<exists>x \<in> set items. in_legacy0_raw x
                 then first_such in_legacy0_raw items it
               else it = hd items)"
proof (cases "find in_current_bucket items")
  case (Some it)
  then have f: "first_such in_current_bucket items it" by (rule find_first_such)
  then have "it \<in> set items" "in_current_bucket it" unfolding first_such_def by auto
  with Some f show ?thesis by (auto simp: select_item_def)
next
  case n0: None
  then have no0: "\<not> (\<exists>x \<in> set items. in_current_bucket x)" by (auto simp: find_None_iff)
  show ?thesis
  proof (cases "find in_legacy1_raw items")
    case (Some it)
    then have f: "first_such in_legacy1_raw items it" by (rule find_first_such)
    then have "it \<in> set items" "in_legacy1_raw it" unfolding first_such_def by auto
    with n0 no0 Some f show ?thesis by (auto simp: select_item_def)
  next
    case n1: None
    then have no1: "\<not> (\<exists>x \<in> set items. in_legacy1_raw x)" by (auto simp: find_None_iff)
    show ?thesis
    proof (cases "find in_legacy0_raw items")
      case (Some it)
      then have f: "first_such in_legacy0_raw items it" by (rule find_first_such)
      then have "it \<in> set items" "in_legacy0_raw it" unfolding first_such_def by auto
      with n0 no0 n1 no1 Some f show ?thesis by (auto simp: select_item_def)
    next
      case n2: None
      then have no2: "\<not> (\<exists>x \<in> set items. in_legacy0_raw x)" by (auto simp: find_None_iff)
      from assms have "hd items \<in> set items" by simp
      with n0 no0 n1 no1 n2 no2 assms show ?thesis
        by (simp add: select_item_def at_first_Cons)
    qed
  qed
qed

lemma ex_items_selected: "select_item (map normalize ex_items) = Some (normalize (ex_items ! 2))"
  by (simp add: select_item_def ex_items_def normalize_def at_first_def in_current_bucket_def
      in_legacy1_raw_def in_legacy0_raw_def startsWith_def)

theorem select_item_first_match_wins_witness:
  "map normalize ex_items \<noteq> []
   \<and> in_legacy0_raw (normalize (ex_items ! 0)) = False
   \<and> in_legacy1_raw (normalize (ex_items ! 1))
   \<and> in_current_bucket (normalize (ex_items ! 2))
   \<and> (\<exists>it. select_item (map normalize ex_items) = Some it \<and> in_current_bucket it
          \<and> it = normalize (ex_items ! 2))"
proof -
  have ne: "map normalize ex_items \<noteq> []" by (simp add: ex_items_def)
  show ?thesis
    using select_item_first_match_wins [OF ne] ex_items_selected
    by (simp add: ex_items_def normalize_def at_first_def in_current_bucket_def
      in_legacy1_raw_def in_legacy0_raw_def startsWith_def)
qed

subsection \<open>Facts about the instance of the collaborators\<close>

lemma ex_deps_fields [simp]:
  "issue ex_deps = ex_issue"
  "sha256_digest ex_deps = ex_digest"
  "index_codec ex_deps = 0x0401"
  "index_write ex_deps = ex_index_write"
  "view_archive ex_deps = ex_archive"
  "Delegation_extract ex_deps = ex_extract"
  "URL_new ex_deps = Some"
  "issue ex_base = ex_issue"
  "sha256_digest ex_base = ex_digest"
  "index_codec ex_base = 0x0401"
  "index_write ex_base = ex_index_write"
  by (simp_all add: ex_deps_def ex_base_def)

lemma ex_view_same:
  "buildIPLDView ex_deps ivc = buildIPLDView ex_base ivc"
  by (simp add: buildIPLDView_def)

lemma ex_relation_same:
  "relation_invocation ex_deps sg c p off len e = relation_invocation ex_base sg c p off len e"
  by (simp add: relation_invocation_def encodeIndex_def)

lemma ex_views_distinct:
  "ex_relation_view \<noteq> ex_location_view" "ex_equals_view \<noteq> ex_location_view"
  "ex_equals_view \<noteq> ex_relation_view" "ex_legacy_view \<noteq> ex_location_view"
  "ex_legacy_view \<noteq> ex_relation_view" "ex_legacy_view \<noteq> ex_equals_view"
  by (simp_all add: ex_relation_view_def ex_location_view_def ex_equals_view_def
      ex_legacy_view_def buildIPLDView_def
      relation_invocation_def location_invocation_def equals_invocation_def invoke_def attach_def Let_def
      Assert_relation_can_def Assert_location_can_def Assert_equals_can_def)

lemma ex_archive_relation:
  "ex_archive (buildIPLDView ex_deps
     (relation_invocation ex_deps ex_signer ex_content ex_car 200 40 (expire_in_an_hour ex_now))) = Inr [2]"
  by (simp add: ex_view_same ex_relation_same ex_archive_def ex_relation_view_def [symmetric] ex_views_distinct)

lemma ex_archive_location:
  "ex_archive (buildIPLDView ex_deps
       (location_invocation ex_signer ex_content
          [''https://carpark-prod-0.s3.amazonaws.com/bagbaieraexample/bagbaieraexample.car'']
          200 40 (expire_in_an_hour ex_now))) = Inr [1]"
  by (simp add: ex_view_same ex_archive_def ex_location_view_def [symmetric])

lemma ex_archive_equals:
  "ex_archive (buildIPLDView ex_deps (equals_invocation ex_signer ex_content ex_other 1700003601)) = Inr [3]"
  by (simp add: ex_view_same ex_archive_def ex_equals_view_def [symmetric] ex_views_distinct)


lemma ex_round_trips: "archive_round_trips ex_deps"
  by (auto simp: archive_round_trips_def ex_archive_def ex_extract_def split: if_splits)

subsection \<open>No position records\<close>

text \<open>
  C4. When the position-index query for a content hash succeeds with no records (its
  \<^verbatim>\<open>Items\<close> undefined or empty), \<^verbatim>\<open>get\<close> returns the empty claim list and raises no error.
\<close>

theorem get_no_records:
  assumes "dynamo_query env (mh_bytes (cid_multihash content)) = Inr result_Items"
    and "result_Items = None \<or> result_Items = Some []"
  shows "get env sg now content = Inr []"
  using assms by (auto simp: get_def select_item_def at_first_def)

theorem get_no_records_witness:
  "dynamo_query ex_deps (mh_bytes (cid_multihash ex_other)) = Inr (Some [])
   \<and> get ex_deps ex_signer ex_now ex_other = Inr []
   \<and> dynamo_query ex_deps (mh_bytes (cid_multihash ex_car)) = Inr None
   \<and> get ex_deps ex_signer ex_now ex_car = Inr []"
proof -
  have q1: "dynamo_query ex_deps (mh_bytes (cid_multihash ex_other)) = Inr (Some [])"
    by (simp add: ex_deps_def ex_other_def ex_content_def ex_legacy_def Link_create_def
        ex_digest_def ex_sha256_def)
  have q2: "dynamo_query ex_deps (mh_bytes (cid_multihash ex_car)) = Inr None"
    by (simp add: ex_deps_def ex_other_def ex_car_def ex_content_def ex_legacy_def
        Link_create_def ex_digest_def ex_sha256_def)
  have e1: "Some [] = None \<or> Some [] = Some ([] :: raw_item list)" by simp
  have e2: "None = None \<or> None = Some ([] :: raw_item list)" by simp
  show ?thesis
    using get_no_records [OF q1 e1, of ex_signer ex_now]
      get_no_records [OF q2 e2, of ex_signer ex_now] q1 q2
    by simp
qed

subsection \<open>The shape of a derived relation claim\<close>

text \<open>
  C10. Every relation claim that the fetcher builds carries an empty \<^verbatim>\<open>children\<close> list and
  exactly one part: the derived archive link, with the link of the single-entry index as its
  \<^verbatim>\<open>includes\<close>. Nothing else about the subject enters the claim.
\<close>

theorem relation_claim_shape:
  assumes "buildRelationClaim env sg content part offset len expiration = Inr r"
  shows "cr_value r =
           Some \<lparr> cap_can = ''assert/relation'', cap_with = did sg,
                  cap_nb = Some (IMap
                    [(''content'', ILink content),
                     (''children'', IList []),
                     (''parts'',
                        IList [IMap [(''content'', ILink part),
                                     (''includes'',
                                        IMap [(''content'',
                                               ILink (blk_cid (encodeIndex env content
                                                 (carOffset content offset len))))])]])]) \<rparr>"
  using assms
  by (auto simp: buildRelationClaim_def buildClaim_def Let_def relation_invocation_def
      attach_def invoke_def at_first_def Assert_relation_can_def split: sum.splits)

theorem relation_claim_shape_witness:
  "\<exists>r. buildRelationClaim ex_deps ex_signer ex_content ex_car 200 40 (expire_in_an_hour ex_now)
          = Inr r
        \<and> cr_value r =
            Some \<lparr> cap_can = ''assert/relation'', cap_with = ''did:web:claims.web3.storage'',
                   cap_nb = Some (IMap
                     [(''content'', ILink ex_content),
                      (''children'', IList []),
                      (''parts'',
                         IList [IMap [(''content'', ILink ex_car),
                                      (''includes'',
                                         IMap [(''content'',
                                                ILink (blk_cid (encodeIndex ex_deps ex_content
                                                  163)))])]])]) \<rparr>"
proof -
  obtain r where
    r: "buildRelationClaim ex_deps ex_signer ex_content ex_car 200 40 (expire_in_an_hour ex_now)
          = Inr r"
    by (simp add: buildRelationClaim_def buildClaim_def Let_def ex_archive_relation)
  have off: "carOffset ex_content 200 40 = 163"
    by (simp add: carOffset_def length_ex_content encodingLength_one)
  show ?thesis
    using relation_claim_shape [OF r] r off by (simp add: ex_signer_def)
qed

subsection \<open>The record of an archived claim\<close>

lemma subject_of_location_invocation:
  "subject_of (inv_capabilities (location_invocation sg content location offset len expiration))
     = Some content"
  by (simp add: subject_of_def location_invocation_def invoke_def at_first_def spread_def)

lemma subject_of_relation_invocation:
  "subject_of (inv_capabilities (relation_invocation env sg content part offset len expiration))
     = Some content"
  by (simp add: subject_of_def relation_invocation_def invoke_def attach_def at_first_def
      spread_def Let_def)

lemma subject_of_equals_invocation:
  "subject_of (inv_capabilities (equals_invocation sg content equals' expiration)) = Some content"
  by (simp add: subject_of_def equals_invocation_def invoke_def at_first_def spread_def)

lemma buildClaim_Inr:
  assumes "buildClaim env content ivc = Inr r"
  shows "view_archive env (buildIPLDView env ivc) = Inr (cr_bytes r)"
    and "cr_claim r = blk_cid (d_root (buildIPLDView env ivc))"
    and "cr_content r = cid_multihash content"
    and "cr_expiration r = inv_expiration ivc"
    and "cr_value r = at_first (inv_capabilities ivc)"
  using assms
  by (auto simp: buildClaim_def Let_def buildIPLDView_def split: sum.splits)

text \<open>
  C2. For a claim record that \<^verbatim>\<open>buildClaim\<close> returns, called as the builders of the module call
  it (with the subject of the invocation as \<open>content\<close>): the subject digest is the multihash
  of the subject of the claim; and, for an archive that gives back what was archived, the
  claim identifier is the content identifier of the bytes when they are decoded again:
  extracting the returned bytes gives a view whose root link is the returned claim identifier
  and whose capabilities are those of the invocation. In particular the bytes of an equals
  claim decode to a claim of type \<^verbatim>\<open>assert/equals\<close> whose \<^verbatim>\<open>equals\<close> is the original link.
\<close>

theorem buildClaim_record:
  assumes rt: "archive_round_trips env"
    and built: "buildClaim env content ivc = Inr r"
    and subj: "subject_of (inv_capabilities ivc) = Some content"
  shows "(\<exists>subject. subject_of (inv_capabilities ivc) = Some subject
            \<and> cr_content r = cid_multihash subject)
         \<and> (\<exists>d. Delegation_extract env (cr_bytes r) = Inr d
                \<and> cr_claim r = blk_cid (d_root d)
                \<and> d_capabilities d = inv_capabilities ivc)
         \<and> (\<forall>sg equals' expiration.
               ivc = equals_invocation sg content equals' expiration \<longrightarrow>
               (\<exists>c. decode env (cr_bytes r) = Inr c
                    \<and> c_type c = ''assert/equals''
                    \<and> map_of (c_nb c) ''content'' = Some (ILink content)
                    \<and> map_of (c_nb c) ''equals'' = Some (ILink equals')))"
proof (intro conjI allI impI)
  show "\<exists>subject. subject_of (inv_capabilities ivc) = Some subject
          \<and> cr_content r = cid_multihash subject"
    using subj buildClaim_Inr(3) [OF built] by simp
next
  have "view_archive env (buildIPLDView env ivc) = Inr (cr_bytes r)"
    by (rule buildClaim_Inr(1) [OF built])
  with rt have ex: "Delegation_extract env (cr_bytes r) = Inr (buildIPLDView env ivc)"
    unfolding archive_round_trips_def by blast
  then show "\<exists>d. Delegation_extract env (cr_bytes r) = Inr d
          \<and> cr_claim r = blk_cid (d_root d) \<and> d_capabilities d = inv_capabilities ivc"
    using buildClaim_Inr(2) [OF built] by (simp add: buildIPLDView_def)
  fix sg equals' expiration
  assume eq: "ivc = equals_invocation sg content equals' expiration"
  show "\<exists>c. decode env (cr_bytes r) = Inr c
          \<and> c_type c = ''assert/equals''
          \<and> map_of (c_nb c) ''content'' = Some (ILink content)
          \<and> map_of (c_nb c) ''equals'' = Some (ILink equals')"
    using ex eq
    by (simp add: decode_def buildIPLDView_def equals_invocation_def invoke_def at_first_def
        falsy_def typeof_object_def has_property_def spread_def claimType_def
        Assert_equals_can_def Assert_location_can_def Assert_partition_can_def
        Assert_inclusion_can_def Assert_relation_can_def)
qed

theorem buildClaim_record_witness:
  "archive_round_trips ex_deps
   \<and> subject_of (inv_capabilities (equals_invocation ex_signer ex_content ex_other 1700003601))
       = Some ex_content
   \<and> (\<exists>r. buildClaim ex_deps ex_content
              (equals_invocation ex_signer ex_content ex_other 1700003601) = Inr r
          \<and> cr_bytes r = [3]
          \<and> cr_content r = cid_multihash ex_content
          \<and> (\<exists>d. Delegation_extract ex_deps (cr_bytes r) = Inr d
                 \<and> cr_claim r = blk_cid (d_root d))
          \<and> (\<exists>c. decode ex_deps (cr_bytes r) = Inr c
                 \<and> c_type c = ''assert/equals''
                 \<and> map_of (c_nb c) ''equals'' = Some (ILink ex_other)))"
proof -
  obtain r where
    r: "buildClaim ex_deps ex_content
          (equals_invocation ex_signer ex_content ex_other 1700003601) = Inr r"
    and bs: "cr_bytes r = [3]"
    by (simp add: buildClaim_def Let_def ex_archive_equals)
  show ?thesis
    using buildClaim_record [OF ex_round_trips r subject_of_equals_invocation]
      ex_round_trips r bs
    by (auto simp: subject_of_equals_invocation)
qed

subsection \<open>The claims derived from the selected candidate\<close>







lemma ex_query_content:
  "dynamo_query ex_deps (mh_bytes (cid_multihash ex_content)) = Inr (Some ex_items)"
  by (simp add: ex_deps_def)


lemma ex_part_current:
  "bucketKeyToPartCID ex_deps ''bagbaieraexample/bagbaieraexample.car'' = Some ex_car"
  by (simp add: bucketKeyToPartCID_def parse_car_cid_def ex_deps_def ex_base_def at_last_def
      at_first_def String_of_def toV1_def ex_car_def Link_create_def CAR_CODE_def)




subsection \<open>The corrected offset in the index\<close>

lemma buildRelationClaim_archived:
  assumes "buildRelationClaim env sg content part offset len expiration = Inr r"
  shows "archived_index env r (content, carOffset content offset len)"
proof -
  let ?ivc = "relation_invocation env sg content part offset len expiration"
  let ?index = "encodeIndex env content (carOffset content offset len)"
  from assms have b: "buildClaim env content ?ivc = Inr r"
    by (simp add: buildRelationClaim_def)
  have "view_archive env (buildIPLDView env ?ivc) = Inr (cr_bytes r)"
    by (rule buildClaim_Inr(1) [OF b])
  moreover have "blk_cid (d_root (buildIPLDView env ?ivc)) = cr_claim r"
    using buildClaim_Inr(2) [OF b] by simp
  moreover have "d_blocks (buildIPLDView env ?ivc) = [?index]"
    by (simp add: buildIPLDView_def relation_invocation_attached)
  moreover have "blk_bytes ?index = index_write env [(content, carOffset content offset len)]"
    by (simp add: encodeIndex_def Let_def)
  moreover have "blk_cid ?index =
      Link_create (index_codec env) (sha256_digest env (blk_bytes ?index))"
    by (simp add: encodeIndex_def Let_def)
  ultimately show ?thesis unfolding archived_index_def by blast
qed

lemma Promise_all_two:
  "Promise_all (p # ps) = Inr [x, y] \<Longrightarrow> p = Inr x \<and> ps = [Inr y]"
proof -
  assume a: "Promise_all (p # ps) = Inr [x, y]"
  then obtain x' where p: "p = Inr x'" by (cases p) simp_all
  with a obtain xs where xs: "Promise_all ps = Inr xs" "x' # xs = [x, y]"
    by (auto split: sum.splits)
  then have ps: "Promise_all ps = Inr [y]" and x: "x' = x" by simp_all
  from ps obtain q qs where q: "ps = q # qs" by (cases ps) simp_all
  with ps obtain y' where y': "q = Inr y'" by (cases q) simp_all
  with ps q obtain ys where ys: "Promise_all qs = Inr ys" "y' # ys = [y]"
    by (auto split: sum.splits)
  then have "qs = []" by (cases qs) (auto split: sum.splits elim: Promise_all.elims)
  with p x q y' ys show ?thesis by simp
qed

lemma get_relation_claim:
  assumes "dynamo_query env (mh_bytes (cid_multihash content)) = Inr result_Items"
    and "select_item (map normalize (case result_Items of None \<Rightarrow> [] | Some rs \<Rightarrow> rs))
           = Some item"
    and "get env sg now content = Inr [loc, rel]"
  shows "\<exists>part. bucketKeyToPartCID env (i_key item) = Some part
           \<and> buildRelationClaim env sg content part (i_offset item) (i_length item)
                (expire_in_an_hour now) = Inr rel"
proof -
  from assms obtain url where
    g: "Promise_all
          (buildLocationClaim env sg content [url] (i_offset item) (i_length item)
             (expire_in_an_hour now)
           # (case bucketKeyToPartCID env (i_key item) of
                Some p \<Rightarrow>
                  [buildRelationClaim env sg content p (i_offset item) (i_length item)
                     (expire_in_an_hour now)]
              | None \<Rightarrow> [])) = Inr [loc, rel]"
    by (auto simp: get_def Let_def split: option.splits)
  from Promise_all_two [OF g] show ?thesis
    by (auto split: option.splits)
qed

text \<open>
  C1. For every relation claim that \<^verbatim>\<open>buildRelationClaim\<close> returns for a position record with
  value offset \<open>offset\<close> and value length \<open>len\<close> and a subject whose link is \<open>idLen\<close> bytes
  long, the returned bytes are the archive of a view with exactly one attached block: the
  index written from the single entry that maps the subject to
  \<open>offset - (varintLength (idLen + len) + idLen)\<close>, where \<open>varintLength\<close> is the length of the
  unsigned varint. The varint is one byte long below 128 and two bytes long from 128 up to
  16383, so the offset written is \<open>offset - (1 + idLen)\<close> and \<open>offset - (2 + idLen)\<close> there; for
  \<open>offset = 100\<close>, \<open>len = 50\<close>, \<open>idLen = 36\<close> it is 63. The relation claim that \<^verbatim>\<open>get\<close> returns
  is such a claim, for the offset and length of the selected position record.
\<close>

theorem relation_index_offset:
  assumes "idLen = int (length (cid_bytes content))"
  shows "(\<forall>r. buildRelationClaim env sg content part offset len expiration = Inr r \<longrightarrow>
            archived_index env r
              (content, offset - (int (length (varint_encode (nat (idLen + len)))) + idLen))
            \<and> (idLen + len < 128 \<longrightarrow>
                 archived_index env r (content, offset - (1 + idLen)))
            \<and> (128 \<le> idLen + len \<and> idLen + len < 16384 \<longrightarrow>
                 archived_index env r (content, offset - (2 + idLen))))
         \<and> (\<forall>result_Items item loc rel.
               dynamo_query env (mh_bytes (cid_multihash content)) = Inr result_Items
               \<and> select_item
                    (map normalize (case result_Items of None \<Rightarrow> [] | Some rs \<Rightarrow> rs))
                  = Some item
               \<and> get env sg now content = Inr [loc, rel] \<longrightarrow>
               archived_index env rel
                 (content,
                  i_offset item
                    - (int (length (varint_encode (nat (idLen + i_length item)))) + idLen)))"
proof (intro conjI allI impI)
  fix r
  assume b: "buildRelationClaim env sg content part offset len expiration = Inr r"
  note a = buildRelationClaim_archived [OF b]
  show "archived_index env r
          (content, offset - (int (length (varint_encode (nat (idLen + len)))) + idLen))"
    using a assms by (simp add: carOffset_def encodingLength_def)
  {
    assume "idLen + len < 128"
    then show "archived_index env r (content, offset - (1 + idLen))"
      using a assms by (simp add: carOffset_def encodingLength_one)
  }
  {
    assume "128 \<le> idLen + len \<and> idLen + len < 16384"
    then show "archived_index env r (content, offset - (2 + idLen))"
      using a assms by (simp add: carOffset_def encodingLength_two)
  }
next
  fix result_Items item loc rel
  assume g: "dynamo_query env (mh_bytes (cid_multihash content)) = Inr result_Items
               \<and> select_item
                    (map normalize (case result_Items of None \<Rightarrow> [] | Some rs \<Rightarrow> rs))
                  = Some item
               \<and> get env sg now content = Inr [loc, rel]"
  then obtain part where
    "buildRelationClaim env sg content part (i_offset item) (i_length item)
       (expire_in_an_hour now) = Inr rel"
    using get_relation_claim by blast
  from buildRelationClaim_archived [OF this]
  show "archived_index env rel
          (content,
           i_offset item
             - (int (length (varint_encode (nat (idLen + i_length item)))) + idLen))"
    using assms by (simp add: carOffset_def encodingLength_def)
qed

lemma ex_get_content:
  "\<exists>loc rel. get ex_deps ex_signer ex_now ex_content = Inr [loc, rel]"
proof -
  have sel: "select_item (map normalize ex_items) =
      Some \<lparr> i_region = Some ''auto'', i_bucket = Some ''carpark-prod-0'',
             i_key = ''bagbaieraexample/bagbaieraexample.car'', i_offset = 200,
             i_length = 40 \<rparr>"
    by (simp add: ex_items_selected) (simp add: ex_items_def normalize_def at_first_def)
  show ?thesis
    by (simp add: get_def ex_query_content sel Let_def String_of_def ex_part_current
        buildLocationClaim_def buildRelationClaim_def buildClaim_def ex_archive_location
        ex_archive_relation)
qed

theorem relation_index_offset_witness:
  "int (length (cid_bytes ex_content)) = 36
   \<and> length (varint_encode 86) = 1
   \<and> (\<exists>r. buildRelationClaim ex_archiving ex_signer ex_content ex_car 100 50 0 = Inr r
          \<and> archived_index ex_archiving r (ex_content, 100 - (1 + 36))
          \<and> archived_index ex_archiving r (ex_content, 63))
   \<and> length (varint_encode 236) = 2
   \<and> (\<exists>r. buildRelationClaim ex_archiving ex_signer ex_content ex_car 1000 200 0 = Inr r
          \<and> archived_index ex_archiving r (ex_content, 1000 - (2 + 36)))
   \<and> (\<exists>loc rel. get ex_deps ex_signer ex_now ex_content = Inr [loc, rel]
          \<and> archived_index ex_deps rel (ex_content, 163))"
proof -
  have len: "(36::int) = int (length (cid_bytes ex_content))"
    by (simp add: length_ex_content)
  have one: "length (varint_encode 86) = 1"
    by (simp add: varint_encode_small)
  have two: "length (varint_encode 236) = 2"
    by (simp add: varint_encode_large varint_encode_small)
  obtain r1 where
    r1: "buildRelationClaim ex_archiving ex_signer ex_content ex_car 100 50 0 = Inr r1"
    by (simp add: buildRelationClaim_def buildClaim_def Let_def ex_archiving_def)
  obtain r2 where
    r2: "buildRelationClaim ex_archiving ex_signer ex_content ex_car 1000 200 0 = Inr r2"
    by (simp add: buildRelationClaim_def buildClaim_def Let_def ex_archiving_def)
  obtain loc rel where g: "get ex_deps ex_signer ex_now ex_content = Inr [loc, rel]"
    using ex_get_content by blast
  have sel: "select_item (map normalize (case Some ex_items of None \<Rightarrow> [] | Some rs \<Rightarrow> rs))
      = Some \<lparr> i_region = Some ''auto'', i_bucket = Some ''carpark-prod-0'',
             i_key = ''bagbaieraexample/bagbaieraexample.car'', i_offset = 200,
             i_length = 40 \<rparr>"
    by (simp add: ex_items_selected) (simp add: ex_items_def normalize_def at_first_def)
  have a1: "archived_index ex_archiving r1 (ex_content, 100 - (1 + 36))
            \<and> archived_index ex_archiving r1 (ex_content, 63)"
    using relation_index_offset [OF len, of ex_archiving ex_signer ex_car 100 50 0,
        THEN conjunct1, rule_format, OF r1]
    by simp
  have a2: "archived_index ex_archiving r2 (ex_content, 1000 - (2 + 36))"
    using relation_index_offset [OF len, of ex_archiving ex_signer ex_car 1000 200 0,
        THEN conjunct1, rule_format, OF r2]
    by simp
  have a3: "archived_index ex_deps rel (ex_content, 163)"
    using relation_index_offset [OF len, where env = ex_deps and sg = ex_signer
          and now = ex_now, THEN conjunct2, rule_format,
        of "Some ex_items" _ loc rel] ex_query_content sel g
    by (simp add: varint_encode_small)
  from len one two r1 a1 r2 a2 g a3 show ?thesis by auto
qed

section \<open>Properties of the client\<close>

subsection \<open>What decode checks\<close>

lemma decode_cases:
  assumes "Delegation_extract env bs = Inr d" and "at_first (d_capabilities d) = Some cap"
  shows "decode env bs =
           (if \<exists>m. cap_nb cap = Some (IMap m) \<and> ''content'' \<in> fst ` set m
            then Inr \<lparr> c_nb = filter (\<lambda>(k, v). k \<noteq> ''type'' \<and> k \<noteq> ''export'' \<and> k \<noteq> ''archive'')
                               (spread (cap_nb cap)),
                       c_type = claimType (cap_can cap),
                       c_export = export d,
                       c_archive = bs \<rparr>
            else Inl (Error ''invalid claim''))"
  using assms
  by (auto simp: decode_def falsy_def typeof_object_def has_property_def
      split: option.splits ipld.splits)

lemma ex_extract_simps:
  "ex_extract [3] = Inr ex_equals_view" "ex_extract [4] = Inr ex_partial_equals_view"
  "ex_extract [5] = Inr ex_future_view" "ex_extract [7] = Inr ex_no_content_view"
  "ex_extract [9] = Inl (Error ''cannot decode'')"
  by (simp_all add: ex_extract_def)

lemma claimType_known: "claimType k = (if k \<in> known_kinds then k else ''unknown'')"
  by (simp add: claimType_def known_kinds_def Assert_location_can_def Assert_partition_can_def
      Assert_inclusion_can_def Assert_relation_can_def Assert_equals_can_def)

lemma map_of_filter_keys:
  "map_of (filter (\<lambda>(k, v). P k) m) k = (if P k then map_of m k else None)"
  by (induction m) auto

text \<open>
  C6, as stated, fails: the archive \<open>[4]\<close> extracts to a view whose only capability is of the
  equals kind and whose named parameters have \<^verbatim>\<open>content\<close> but no \<^verbatim>\<open>equals\<close>, and \<^verbatim>\<open>decode\<close>
  returns a claim of type \<^verbatim>\<open>assert/equals\<close> for it.
\<close>

theorem decode_accepts_partial_equals:
  "Delegation_extract ex_deps [4] = Inr ex_partial_equals_view
   \<and> d_capabilities ex_partial_equals_view =
       [\<lparr> cap_can = ''assert/equals'', cap_with = ''did:web:claims.web3.storage'',
          cap_nb = Some (IMap [(''content'', ILink ex_content)]) \<rparr>]
   \<and> \<not> has_property ''equals'' (Some (IMap [(''content'', ILink ex_content)]))
   \<and> decode ex_deps [4] =
       Inr \<lparr> c_nb = [(''content'', ILink ex_content)], c_type = ''assert/equals'',
              c_export = export ex_partial_equals_view, c_archive = [4] \<rparr>"
  by (simp add: decode_def ex_extract_simps ex_partial_equals_view_def buildIPLDView_def
      invoke_def ex_signer_def Assert_equals_can_def at_first_def falsy_def typeof_object_def
      has_property_def spread_def claimType_known known_kinds_def export_def)

text \<open>
  C6, amended. For an archive that extracts to a view with a capability, \<^verbatim>\<open>decode\<close> rejects
  with "invalid claim" when the named parameters of the first capability are missing or
  falsy, are not an object, or have no \<^verbatim>\<open>content\<close>. No other field is checked: when the
  named parameters are a plain object with \<^verbatim>\<open>content\<close>, \<^verbatim>\<open>decode\<close> returns a claim of the type
  of the discriminator that carries the other entries as they are, whatever the kind requires.
\<close>

theorem decode_checks_content_only:
  assumes "Delegation_extract env bs = Inr d"
    and "at_first (d_capabilities d) = Some cap"
  shows "(falsy (cap_nb cap) \<or> \<not> typeof_object (cap_nb cap)
            \<or> \<not> has_property ''content'' (cap_nb cap)
          \<longrightarrow> decode env bs = Inl (Error ''invalid claim''))
         \<and> (\<forall>m. cap_nb cap = Some (IMap m) \<and> ''content'' \<in> fst ` set m \<longrightarrow>
               (\<exists>c. decode env bs = Inr c \<and> c_type c = claimType (cap_can cap)
                    \<and> (\<forall>k. k \<notin> {''type'', ''export'', ''archive''} \<longrightarrow>
                           map_of (c_nb c) k = map_of m k)))"
proof (intro conjI impI allI)
  assume "falsy (cap_nb cap) \<or> \<not> typeof_object (cap_nb cap)
            \<or> \<not> has_property ''content'' (cap_nb cap)"
  then show "decode env bs = Inl (Error ''invalid claim'')"
    using assms by (simp add: decode_def)
next
  fix m
  assume m: "cap_nb cap = Some (IMap m) \<and> ''content'' \<in> fst ` set m"
  let ?c = "\<lparr> c_nb = filter (\<lambda>(k, v). k \<noteq> ''type'' \<and> k \<noteq> ''export'' \<and> k \<noteq> ''archive'')
                               (spread (cap_nb cap)),
                       c_type = claimType (cap_can cap),
                       c_export = export d,
                       c_archive = bs \<rparr>"
  have dec: "decode env bs = Inr ?c"
    using m by (simp add: decode_cases [OF assms])
  have keep: "\<forall>k. k \<notin> {''type'', ''export'', ''archive''} \<longrightarrow> map_of (c_nb ?c) k = map_of m k"
    using m by (simp add: spread_def map_of_filter_keys)
  show "\<exists>c. decode env bs = Inr c \<and> c_type c = claimType (cap_can cap)
                    \<and> (\<forall>k. k \<notin> {''type'', ''export'', ''archive''} \<longrightarrow>
                           map_of (c_nb c) k = map_of m k)"
    using dec keep by (intro exI [of _ ?c]) simp
qed

lemma ex_partial_caps:
  "at_first (d_capabilities ex_partial_equals_view) =
     Some \<lparr> cap_can = ''assert/equals'', cap_with = ''did:web:claims.web3.storage'',
            cap_nb = Some (IMap [(''content'', ILink ex_content)]) \<rparr>"
  by (simp add: ex_partial_equals_view_def buildIPLDView_def invoke_def at_first_def
      ex_signer_def Assert_equals_can_def)

lemma ex_no_content_caps:
  "at_first (d_capabilities ex_no_content_view) =
     Some \<lparr> cap_can = ''assert/equals'', cap_with = ''did:web:claims.web3.storage'',
            cap_nb = Some (IMap [(''equals'', ILink ex_other)]) \<rparr>"
  by (simp add: ex_no_content_view_def buildIPLDView_def invoke_def at_first_def
      ex_signer_def Assert_equals_can_def)

lemma ex_future_caps:
  "at_first (d_capabilities ex_future_view) =
     Some \<lparr> cap_can = ''assert/descriptor'', cap_with = ''did:web:claims.web3.storage'',
            cap_nb = Some (IMap [(''content'', ILink ex_content),
                                 (''note'', IString ''opaque'')]) \<rparr>"
  by (simp add: ex_future_view_def buildIPLDView_def invoke_def at_first_def ex_signer_def)

theorem decode_checks_content_only_witness:
  "Delegation_extract ex_deps [7] = Inr ex_no_content_view
   \<and> decode ex_deps [7] = Inl (Error ''invalid claim'')
   \<and> Delegation_extract ex_deps [4] = Inr ex_partial_equals_view
   \<and> (\<exists>c. decode ex_deps [4] = Inr c \<and> c_type c = ''assert/equals''
          \<and> map_of (c_nb c) ''content'' = Some (ILink ex_content)
          \<and> map_of (c_nb c) ''equals'' = None)"
proof -
  have e7: "Delegation_extract ex_deps [7] = Inr ex_no_content_view"
    and e4: "Delegation_extract ex_deps [4] = Inr ex_partial_equals_view"
    by (simp_all add: ex_extract_simps)
  have reject: "decode ex_deps [7] = Inl (Error ''invalid claim'')"
    using decode_checks_content_only [OF e7 ex_no_content_caps]
    by (simp add: has_property_def)
  have nb4: "cap_nb \<lparr> cap_can = ''assert/equals'', cap_with = ''did:web:claims.web3.storage'',
            cap_nb = Some (IMap [(''content'', ILink ex_content)]) \<rparr>
            = Some (IMap [(''content'', ILink ex_content)])
          \<and> ''content'' \<in> fst ` set [(''content'', ILink ex_content)]"
    by simp
  from decode_checks_content_only [OF e4 ex_partial_caps] nb4
  obtain c where c: "decode ex_deps [4] = Inr c"
    and ty: "c_type c = claimType ''assert/equals''"
    and keep: "\<forall>k. k \<notin> {''type'', ''export'', ''archive''} \<longrightarrow>
                 map_of (c_nb c) k = map_of [(''content'', ILink ex_content)] k"
    by (simp only: capability.simps) blast
  have "map_of (c_nb c) ''content'' = Some (ILink ex_content)"
    using keep [rule_format, of "''content''"] by simp
  moreover have "map_of (c_nb c) ''equals'' = None"
    using keep [rule_format, of "''equals''"] by simp
  moreover have "c_type c = ''assert/equals''"
    using ty by (simp add: claimType_known known_kinds_def)
  ultimately have accept: "\<exists>c. decode ex_deps [4] = Inr c \<and> c_type c = ''assert/equals''
          \<and> map_of (c_nb c) ''content'' = Some (ILink ex_content)
          \<and> map_of (c_nb c) ''equals'' = None"
    using c by blast
  show ?thesis using e7 e4 reject accept by (simp only: simp_thms)
qed

subsection \<open>Claims of an unknown kind\<close>

text \<open>
  C7. When an archive extracts to a view whose first capability has a plain object with
  \<^verbatim>\<open>content\<close> as named parameters (so that \<^verbatim>\<open>decode\<close> succeeds) and a discriminator that is
  none of the five known kinds, \<^verbatim>\<open>decode\<close> does not fail: it returns a claim of type
  \<^verbatim>\<open>unknown\<close> that keeps the archive bytes, the blocks and the entries of the named parameters.
\<close>

theorem decode_unknown_kind:
  assumes "Delegation_extract env bs = Inr d"
    and "at_first (d_capabilities d) = Some cap"
    and "cap_nb cap = Some (IMap m)"
    and "''content'' \<in> fst ` set m"
    and "cap_can cap \<notin> known_kinds"
  shows "\<exists>c. decode env bs = Inr c \<and> c_type c = ''unknown''
              \<and> c_archive c = bs \<and> c_export c = export d
              \<and> (\<forall>k. k \<notin> {''type'', ''export'', ''archive''} \<longrightarrow>
                     map_of (c_nb c) k = map_of m k)"
proof -
  let ?c = "\<lparr> c_nb = filter (\<lambda>(k, v). k \<noteq> ''type'' \<and> k \<noteq> ''export'' \<and> k \<noteq> ''archive'')
                               (spread (cap_nb cap)),
                       c_type = claimType (cap_can cap),
                       c_export = export d,
                       c_archive = bs \<rparr>"
  have "decode env bs = Inr ?c"
    using assms(3,4) by (simp add: decode_cases [OF assms(1,2)])
  moreover have "c_type ?c = ''unknown''"
    using assms(5) by (simp add: claimType_known)
  moreover have "\<forall>k. k \<notin> {''type'', ''export'', ''archive''} \<longrightarrow>
                   map_of (c_nb ?c) k = map_of m k"
    using assms(3) by (simp add: spread_def map_of_filter_keys)
  ultimately show ?thesis by (intro exI [of _ ?c]) simp
qed

theorem decode_unknown_kind_witness:
  "Delegation_extract ex_deps [5] = Inr ex_future_view
   \<and> ''assert/descriptor'' \<notin> known_kinds
   \<and> (\<exists>c. decode ex_deps [5] = Inr c \<and> c_type c = ''unknown'' \<and> c_archive c = [5]
          \<and> map_of (c_nb c) ''content'' = Some (ILink ex_content)
          \<and> map_of (c_nb c) ''note'' = Some (IString ''opaque''))"
proof -
  have e5: "Delegation_extract ex_deps [5] = Inr ex_future_view"
    by (simp add: ex_extract_simps)
  have nb: "cap_nb \<lparr> cap_can = ''assert/descriptor'', cap_with = ''did:web:claims.web3.storage'',
            cap_nb = Some (IMap [(''content'', ILink ex_content),
                                 (''note'', IString ''opaque'')]) \<rparr>
            = Some (IMap [(''content'', ILink ex_content), (''note'', IString ''opaque'')])"
    by simp
  have has: "''content'' \<in> fst ` set [(''content'', ILink ex_content), (''note'', IString ''opaque'')]"
    by simp
  have unk: "cap_can \<lparr> cap_can = ''assert/descriptor'', cap_with = ''did:web:claims.web3.storage'',
            cap_nb = Some (IMap [(''content'', ILink ex_content),
                                 (''note'', IString ''opaque'')]) \<rparr> \<notin> known_kinds"
    by (simp add: known_kinds_def)
  from decode_unknown_kind [OF e5 ex_future_caps nb has unk]
  obtain c where c: "decode ex_deps [5] = Inr c" "c_type c = ''unknown''" "c_archive c = [5]"
    and keep: "\<forall>k. k \<notin> {''type'', ''export'', ''archive''} \<longrightarrow>
                 map_of (c_nb c) k =
                 map_of [(''content'', ILink ex_content), (''note'', IString ''opaque'')] k"
    by blast
  have "map_of (c_nb c) ''content'' = Some (ILink ex_content)"
    using keep [rule_format, of "''content''"] by simp
  moreover have "map_of (c_nb c) ''note'' = Some (IString ''opaque'')"
    using keep [rule_format, of "''note''"] by simp
  ultimately have "\<exists>c. decode ex_deps [5] = Inr c \<and> c_type c = ''unknown'' \<and> c_archive c = [5]
          \<and> map_of (c_nb c) ''content'' = Some (ILink ex_content)
          \<and> map_of (c_nb c) ''note'' = Some (IString ''opaque'')"
    using c by blast
  moreover have "''assert/descriptor'' \<notin> known_kinds" by (simp add: known_kinds_def)
  ultimately show ?thesis using e5 by (simp only: simp_thms)
qed

subsection \<open>The pipe of blocks\<close>

lemma decode_error_message:
  assumes "decode env bs = Inl e"
  shows "message e \<noteq> ''unexpected end of data''"
  using assms
  by (auto simp: decode_def split: sum.splits option.splits if_splits)

lemma write_block_Inr:
  "write_block env acc b = Inr acc' \<longleftrightarrow> (\<exists>c. decoded env b c \<and> acc' = acc @ [c])"
  by (auto simp: write_block_def decoded_def hash_verified_def Let_def split: sum.splits)

lemma write_block_mismatch:
  "\<not> hash_verified env b \<Longrightarrow>
     write_block env acc b =
       Inl (Error (''hash verification failed: '' @ Link_toString env (blk_cid b)))"
  by (simp add: write_block_def hash_verified_def Let_def)

lemma write_block_undecodable:
  "hash_verified env b \<Longrightarrow> decode env (blk_bytes b) = Inl e \<Longrightarrow> write_block env acc b = Inl e"
  by (simp add: write_block_def hash_verified_def Let_def)

lemma write_block_Inl:
  assumes "write_block env acc b = Inl e"
  shows "message e \<noteq> ''unexpected end of data'' \<and> (\<forall>acc'. write_block env acc' b = Inl e)
         \<and> (hash_verified env b \<longrightarrow> decode env (blk_bytes b) = Inl e)"
proof (cases "hash_verified env b")
  case False
  with assms show ?thesis by (auto simp: write_block_mismatch)
next
  case True
  with assms have d: "decode env (blk_bytes b) = Inl e"
    by (auto simp: write_block_def hash_verified_def Let_def split: sum.splits)
  with True show ?thesis
    by (auto simp: write_block_undecodable dest: decode_error_message)
qed

lemma write_block_not_decoded:
  "write_block env acc b = Inl e \<Longrightarrow> \<not> decoded env b c"
  by (auto simp: write_block_def decoded_def hash_verified_def Let_def split: sum.splits)

lemma pipeTo_all:
  "list_all2 (decoded env) bs cs \<Longrightarrow> pipeTo env bs end' ov acc = (acc @ cs, end')"
proof (induction bs arbitrary: cs acc)
  case Nil
  then show ?case by simp
next
  case (Cons b bs)
  then obtain c cs' where cs: "cs = c # cs'" "decoded env b c" "list_all2 (decoded env) bs cs'"
    by (auto simp: list_all2_Cons1)
  then have "write_block env acc b = Inr (acc @ [c])" by (auto simp: write_block_Inr)
  with Cons.IH [OF cs(3), of "acc @ [c]"] cs(1) show ?case by simp
qed

lemma pipeTo_fail:
  assumes "list_all2 (decoded env) pre cs" and "write_block env (acc @ cs) b = Inl e"
  shows "pipeTo env (pre @ b # post) end' ov acc =
           (acc @ cs,
            Some (case end' of
                    Some stream_err \<Rightarrow> if post = [] \<and> ov then stream_err else e
                  | None \<Rightarrow> e))"
  using assms
proof (induction pre arbitrary: cs acc)
  case Nil
  then show ?case by simp
next
  case (Cons p pre)
  then obtain c cs' where cs: "cs = c # cs'" "decoded env p c" "list_all2 (decoded env) pre cs'"
    by (auto simp: list_all2_Cons1)
  then have w: "write_block env acc p = Inr (acc @ [c])" by (auto simp: write_block_Inr)
  from Cons.prems(2) cs(1) have "write_block env ((acc @ [c]) @ cs') b = Inl e" by simp
  from Cons.IH [OF cs(3) this] w cs(1) show ?case by simp
qed

lemma pipeTo_cases:
  assumes "pipeTo env bs end' ov acc = (out, r)"
  shows "(\<exists>cs. list_all2 (decoded env) bs cs \<and> out = acc @ cs \<and> r = end')
         \<or> (\<exists>pre b post cs e. bs = pre @ b # post \<and> list_all2 (decoded env) pre cs
               \<and> write_block env (acc @ cs) b = Inl e \<and> out = acc @ cs
               \<and> r = Some (case end' of
                             Some stream_err \<Rightarrow> if post = [] \<and> ov then stream_err else e
                           | None \<Rightarrow> e))"
proof (cases "\<exists>cs. list_all2 (decoded env) bs cs")
  case True
  then obtain cs where cs: "list_all2 (decoded env) bs cs" by blast
  from pipeTo_all [OF cs, of end' ov acc] assms cs show ?thesis by auto
next
  case False
  have "\<exists>pre b post cs e. bs = pre @ b # post \<and> list_all2 (decoded env) pre cs
          \<and> write_block env (acc' @ cs) b = Inl e" if "\<not> (\<exists>cs. list_all2 (decoded env) bs cs)"
    for acc'
    using that
  proof (induction bs arbitrary: acc')
    case Nil
    then show ?case by simp
  next
    case (Cons b bs)
    show ?case
    proof (cases "write_block env acc' b")
      case (Inl e)
      then have "b # bs = [] @ b # bs \<and> list_all2 (decoded env) [] []
                 \<and> write_block env (acc' @ []) b = Inl e" by simp
      then show ?thesis by blast
    next
      case (Inr acc'')
      then obtain c where c: "decoded env b c" by (auto simp: write_block_Inr)
      with Cons.prems have "\<not> (\<exists>cs. list_all2 (decoded env) bs cs)"
        by (metis list_all2_Cons)
      from Cons.IH [OF this, of "acc' @ [c]"]
      obtain pre b' post cs e where f: "bs = pre @ b' # post" "list_all2 (decoded env) pre cs"
        "write_block env ((acc' @ [c]) @ cs) b' = Inl e" by blast
      with c have "b # bs = (b # pre) @ b' # post \<and> list_all2 (decoded env) (b # pre) (c # cs)
               \<and> write_block env (acc' @ (c # cs)) b' = Inl e" by simp
      then show ?thesis by blast
    qed
  qed
  from this [OF False, of acc]
  obtain pre b post cs e where f: "bs = pre @ b # post" "list_all2 (decoded env) pre cs"
    "write_block env (acc @ cs) b = Inl e" by blast
  from pipeTo_fail [OF f(2,3), of post end' ov] assms f(1)
  have "out = acc @ cs \<and> r = Some (case end' of
                             Some stream_err \<Rightarrow> if post = [] \<and> ov then stream_err else e
                           | None \<Rightarrow> e)" by simp
  with f show ?thesis by blast
qed

lemma decoded_all_verified:
  "list_all2 (decoded env) bs cs \<Longrightarrow> \<forall>b \<in> set bs. hash_verified env b"
  by (induction bs cs rule: list_all2_induct) (auto simp: decoded_def)

lemma read_unfold:
  assumes "res_ok res" and "res_body res = Some body"
    and "pipeTo env (sink_blocks body) (car_error body) (overtaken body) []
           = (claims, r)"
  shows "read env res =
           (case r of
              None \<Rightarrow> Inr claims
            | Some err \<Rightarrow>
                if claims = [] \<and> message err = ''unexpected end of data''
                then Inr claims else Inl err)"
  using assms by (simp add: read_def split: option.splits)

lemma read_Inr_ok: "read env res = Inr claims \<Longrightarrow> res_ok res"
  by (auto simp: read_def split: if_splits)

subsection \<open>Blocks and responses of the instance\<close>

lemma ex_response_simps:
  "res_ok (ex_response bs e)"
  "res_body (ex_response bs e)
     = Some \<lparr> car_blocks = bs, car_error = e, car_error_at = None \<rparr>"
  by (simp_all add: ex_response_def)

lemma ex_cut_response_simps:
  "res_ok (ex_cut_response bs e k)"
  "res_body (ex_cut_response bs e k)
     = Some \<lparr> car_blocks = bs, car_error = Some e, car_error_at = Some k \<rparr>"
  by (simp_all add: ex_cut_response_def)

lemma ex_body_simps:
  "sink_blocks \<lparr> car_blocks = bs, car_error = Some e, car_error_at = Some k \<rparr> = take k bs"
  "sink_blocks \<lparr> car_blocks = bs, car_error = e', car_error_at = None \<rparr> = bs"
  "overtaken \<lparr> car_blocks = bs, car_error = Some e, car_error_at = Some k \<rparr>"
  "\<not> overtaken \<lparr> car_blocks = bs, car_error = e', car_error_at = None \<rparr>"
  by (simp_all add: sink_blocks_def overtaken_def split: option.splits)

lemma ex_block_verified: "hash_verified ex_deps (ex_block bs bs)"
  by (simp add: hash_verified_def ex_block_def Link_create_def)

lemma ex_block_mismatch: "\<not> hash_verified ex_deps (ex_block [8] [3])"
  by (simp add: hash_verified_def ex_block_def Link_create_def ex_digest_def)

lemma ex_block_to_string: "Link_toString ex_deps (blk_cid (ex_block [8] [3])) = ''bafyexample''"
  by (simp add: ex_block_def ex_deps_def ex_base_def Link_create_def ex_digest_def ex_car_def
      ex_other_def)

lemma ex_decode_9: "decode ex_deps [9] = Inl (Error ''failed to decode claim'')"
  by (simp add: decode_def ex_extract_simps)

lemma ex_decoded_3: "\<exists>c. decoded ex_deps (ex_block [3] [3]) c"
proof -
  have "\<exists>c. decode ex_deps [3] = Inr c"
    by (simp add: decode_def ex_extract_simps ex_equals_view_def buildIPLDView_def
        equals_invocation_def invoke_def at_first_def falsy_def typeof_object_def
        has_property_def)
  then show ?thesis
    using ex_block_verified [of "[3]"] by (simp add: decoded_def ex_block_def)
qed

subsection \<open>Errors while reading\<close>

text \<open>
  C8, as stated, fails: a record that fails verification or decode is not dropped. With no
  claim produced yet and a stream that ends normally, a response whose only block has a link
  with another digest, and one whose only block does not decode, both make \<^verbatim>\<open>read\<close> throw the
  error of that record.
\<close>

theorem read_throws_on_bad_record:
  "\<not> hash_verified ex_deps (ex_block [8] [3])
   \<and> read ex_deps (ex_response [ex_block [8] [3]] None)
       = Inl (Error ''hash verification failed: bafyexample'')
   \<and> hash_verified ex_deps (ex_block [9] [9])
   \<and> decode ex_deps [9] = Inl (Error ''failed to decode claim'')
   \<and> read ex_deps (ex_response [ex_block [9] [9]] None)
       = Inl (Error ''failed to decode claim'')"
  by (simp add: read_def ex_response_def sink_blocks_def overtaken_def write_block_def
      decode_def ex_block_def hash_verified_def ex_extract_simps ex_digest_def Link_create_def ex_deps_def ex_base_def
      ex_car_def ex_other_def)

text \<open>
  C8, amended. For a response with status ok and a body, and the blocks that the sink takes
  from it: the first record that fails verification or decode makes \<^verbatim>\<open>read\<close> throw the error
  of that record, whether or not claims were produced before it, unless it is the last record
  taken from a stream whose own error overtook the write. In that case, and when every record
  taken is verified and decoded and the stream ends with an error, \<^verbatim>\<open>read\<close> ends with the error
  of the stream: it returns the empty list when no claim was produced and the message is
  "unexpected end of data", and throws the error of the stream otherwise. When every record
  is verified and decoded and the stream ends normally, \<^verbatim>\<open>read\<close> returns the claims.
\<close>

theorem read_propagates_errors:
  assumes "res_ok res" and "res_body res = Some body"
  shows "(\<forall>pre b post cs.
            sink_blocks body = pre @ b # post \<and> list_all2 (decoded env) pre cs
            \<and> \<not> hash_verified env b \<and> (post \<noteq> [] \<or> \<not> overtaken body) \<longrightarrow>
            read env res =
              Inl (Error (''hash verification failed: '' @ Link_toString env (blk_cid b))))
         \<and> (\<forall>pre b post cs e.
               sink_blocks body = pre @ b # post \<and> list_all2 (decoded env) pre cs
               \<and> hash_verified env b \<and> decode env (blk_bytes b) = Inl e
               \<and> (post \<noteq> [] \<or> \<not> overtaken body) \<longrightarrow>
               read env res = Inl e)
         \<and> (\<forall>pre b cs e stream_err.
               sink_blocks body = pre @ [b] \<and> list_all2 (decoded env) pre cs
               \<and> write_block env cs b = Inl e
               \<and> car_error body = Some stream_err \<and> overtaken body \<longrightarrow>
               read env res =
                 (if cs = [] \<and> message stream_err = ''unexpected end of data''
                  then Inr [] else Inl stream_err))
         \<and> (\<forall>cs. list_all2 (decoded env) (sink_blocks body) cs \<longrightarrow>
               read env res =
                 (case car_error body of
                    None \<Rightarrow> Inr cs
                  | Some e \<Rightarrow>
                      if cs = [] \<and> message e = ''unexpected end of data''
                      then Inr [] else Inl e))"
proof -
  have thrown: "read env res = Inl e"
    if bl: "sink_blocks body = pre @ b # post" and pre: "list_all2 (decoded env) pre cs"
      and w: "write_block env ([] @ cs) b = Inl e"
      and first: "post \<noteq> [] \<or> \<not> overtaken body"
    for pre b post cs e
  proof -
    from first have "(case car_error body of
                        Some stream_err \<Rightarrow>
                          if post = [] \<and> overtaken body then stream_err else e
                      | None \<Rightarrow> e) = e"
      by (auto simp: overtaken_def split: option.splits)
    with pipeTo_fail [OF pre w, of post "car_error body" "overtaken body"] bl
    have "pipeTo env (sink_blocks body) (car_error body) (overtaken body) []
            = ([] @ cs, Some e)" by simp
    from read_unfold [OF assms this] write_block_Inl [OF w] show ?thesis by simp
  qed
  have c1: "\<forall>pre b post cs.
            sink_blocks body = pre @ b # post \<and> list_all2 (decoded env) pre cs
            \<and> \<not> hash_verified env b \<and> (post \<noteq> [] \<or> \<not> overtaken body) \<longrightarrow>
            read env res =
              Inl (Error (''hash verification failed: '' @ Link_toString env (blk_cid b)))"
    using thrown write_block_mismatch by blast
  have c2: "\<forall>pre b post cs e.
               sink_blocks body = pre @ b # post \<and> list_all2 (decoded env) pre cs
               \<and> hash_verified env b \<and> decode env (blk_bytes b) = Inl e
               \<and> (post \<noteq> [] \<or> \<not> overtaken body) \<longrightarrow>
               read env res = Inl e"
    using thrown write_block_undecodable by blast
  have c3: "\<forall>pre b cs e stream_err.
               sink_blocks body = pre @ [b] \<and> list_all2 (decoded env) pre cs
               \<and> write_block env cs b = Inl e
               \<and> car_error body = Some stream_err \<and> overtaken body \<longrightarrow>
               read env res =
                 (if cs = [] \<and> message stream_err = ''unexpected end of data''
                  then Inr [] else Inl stream_err)"
  proof (intro allI impI)
    fix pre b cs e stream_err
    assume a: "sink_blocks body = pre @ [b] \<and> list_all2 (decoded env) pre cs
               \<and> write_block env cs b = Inl e
               \<and> car_error body = Some stream_err \<and> overtaken body"
    then have w: "write_block env ([] @ cs) b = Inl e" and pre: "list_all2 (decoded env) pre cs"
      by simp_all
    from pipeTo_fail [OF pre w, of "[]" "car_error body" "overtaken body"] a
    have "pipeTo env (sink_blocks body) (car_error body) (overtaken body) []
            = ([] @ cs, Some stream_err)" by simp
    from read_unfold [OF assms this]
    show "read env res =
            (if cs = [] \<and> message stream_err = ''unexpected end of data''
             then Inr [] else Inl stream_err)"
      by auto
  qed
  have c4: "\<forall>cs. list_all2 (decoded env) (sink_blocks body) cs \<longrightarrow>
               read env res =
                 (case car_error body of
                    None \<Rightarrow> Inr cs
                  | Some e \<Rightarrow>
                      if cs = [] \<and> message e = ''unexpected end of data''
                      then Inr [] else Inl e)"
  proof (intro allI impI)
    fix cs
    assume "list_all2 (decoded env) (sink_blocks body) cs"
    then have "pipeTo env (sink_blocks body) (car_error body) (overtaken body) []
                 = ([] @ cs, car_error body)"
      by (rule pipeTo_all)
    from read_unfold [OF assms this]
    show "read env res =
            (case car_error body of
               None \<Rightarrow> Inr cs
             | Some e \<Rightarrow>
                 if cs = [] \<and> message e = ''unexpected end of data'' then Inr [] else Inl e)"
      by (auto split: option.splits)
  qed
  from c1 c2 c3 c4 show ?thesis by (intro conjI)
qed

subsection \<open>Only verified blocks are read\<close>

text \<open>
  C9, as stated, fails: \<^verbatim>\<open>read\<close> does not always throw "hash verification failed" for a block
  that fails the check. When the stream is cut short and its error overtakes the write of
  the mismatched block, \<^verbatim>\<open>read\<close> returns the empty list if no claim was produced before, and
  throws "unexpected end of data" if one was.
\<close>

theorem read_returns_nothing_for_mismatch:
  "\<not> hash_verified ex_deps (ex_block [8] [3])
   \<and> read ex_deps (ex_cut_response [ex_block [8] [3]] (Error ''unexpected end of data'') 1)
       = Inr []
   \<and> (\<exists>c. decoded ex_deps (ex_block [3] [3]) c)
   \<and> read ex_deps (ex_cut_response [ex_block [3] [3], ex_block [8] [3]]
         (Error ''unexpected end of data'') 2)
       = Inl (Error ''unexpected end of data'')"
proof -
  obtain c where c: "decoded ex_deps (ex_block [3] [3]) c" using ex_decoded_3 by blast
  then have one: "list_all2 (decoded ex_deps) [ex_block [3] [3]] [c]" by simp
  have w: "write_block ex_deps ([] @ cs) (ex_block [8] [3])
              = Inl (Error (''hash verification failed: '' @ ''bafyexample''))" for cs
    using write_block_mismatch [OF ex_block_mismatch] ex_block_to_string by simp
  have "pipeTo ex_deps ([] @ ex_block [8] [3] # [])
          (Some (Error ''unexpected end of data'')) True []
          = ([] @ [], Some (Error ''unexpected end of data''))"
    using pipeTo_fail [OF _ w, of "[]" "[]" "[]" "Some (Error ''unexpected end of data'')" True]
    by simp
  then have a: "read ex_deps (ex_cut_response [ex_block [8] [3]]
                  (Error ''unexpected end of data'') 1) = Inr []"
    using read_unfold [OF ex_cut_response_simps,
        of ex_deps "[ex_block [8] [3]]" "Error ''unexpected end of data''" 1 "[]"
          "Some (Error ''unexpected end of data'')"]
    by (simp add: ex_body_simps)
  have "pipeTo ex_deps ([ex_block [3] [3]] @ ex_block [8] [3] # [])
          (Some (Error ''unexpected end of data'')) True []
          = ([] @ [c], Some (Error ''unexpected end of data''))"
    using pipeTo_fail [OF one w, of "[]" "Some (Error ''unexpected end of data'')" True]
    by simp
  then have b: "read ex_deps (ex_cut_response [ex_block [3] [3], ex_block [8] [3]]
                  (Error ''unexpected end of data'') 2)
                = Inl (Error ''unexpected end of data'')"
    using read_unfold [OF ex_cut_response_simps,
        of ex_deps "[ex_block [3] [3], ex_block [8] [3]]" "Error ''unexpected end of data''" 2
          "[c]" "Some (Error ''unexpected end of data'')"]
    by (simp add: ex_body_simps)
  from a b c ex_block_mismatch show ?thesis by blast
qed

theorem read_propagates_errors_witness:
  "read ex_deps (ex_response [ex_block [3] [3], ex_block [9] [9]] None)
     = Inl (Error ''failed to decode claim'')
   \<and> read ex_deps (ex_response [ex_block [3] [3], ex_block [8] [3]] None)
       = Inl (Error ''hash verification failed: bafyexample'')
   \<and> read ex_deps (ex_response [ex_block [9] [9]] (Some (Error ''unexpected end of data'')))
       = Inl (Error ''failed to decode claim'')
   \<and> read ex_deps (ex_cut_response [ex_block [9] [9]] (Error ''unexpected end of data'') 1)
       = Inr []
   \<and> read ex_deps (ex_cut_response [ex_block [9] [9], ex_block [3] [3]]
         (Error ''unexpected end of data'') 1)
       = Inr []
   \<and> read ex_deps (ex_cut_response [ex_block [3] [3], ex_block [9] [9]]
         (Error ''unexpected end of data'') 2)
       = Inl (Error ''unexpected end of data'')
   \<and> (\<exists>c. read ex_deps (ex_response [ex_block [3] [3]] None) = Inr [c])
   \<and> read ex_deps (ex_response [] (Some (Error ''unexpected end of data''))) = Inr []
   \<and> read ex_deps (ex_response [] (Some (Error ''invalid header'')))
       = Inl (Error ''invalid header'')
   \<and> read ex_deps (ex_response [ex_block [3] [3]] (Some (Error ''unexpected end of data'')))
       = Inl (Error ''unexpected end of data'')"
proof -
  obtain c where c: "decoded ex_deps (ex_block [3] [3]) c" using ex_decoded_3 by blast
  then have one: "list_all2 (decoded ex_deps) [ex_block [3] [3]] [c]" by simp
  have w9: "write_block ex_deps cs (ex_block [9] [9]) = Inl (Error ''failed to decode claim'')"
    for cs
    using write_block_undecodable [OF ex_block_verified [of "[9]"], of _ cs] ex_decode_9
    by (simp add: ex_block_def)
  have d9: "decode ex_deps (blk_bytes (ex_block [9] [9])) = Inl (Error ''failed to decode claim'')"
    using ex_decode_9 by (simp add: ex_block_def)
  note inst = read_propagates_errors [OF ex_response_simps, of _ _ ex_deps]
  note cut = read_propagates_errors [OF ex_cut_response_simps, of _ _ _ ex_deps]
  have a: "read ex_deps (ex_response [ex_block [3] [3], ex_block [9] [9]] None)
             = Inl (Error ''failed to decode claim'')"
    using inst [of "[ex_block [3] [3], ex_block [9] [9]]" None, THEN conjunct2, THEN conjunct1,
        rule_format, of "[ex_block [3] [3]]" "ex_block [9] [9]" "[]" "[c]"
          "Error ''failed to decode claim''"]
      one ex_block_verified [of "[9]"] d9
    by (simp add: ex_body_simps)
  have b: "read ex_deps (ex_response [ex_block [3] [3], ex_block [8] [3]] None)
             = Inl (Error ''hash verification failed: bafyexample'')"
    using inst [of "[ex_block [3] [3], ex_block [8] [3]]" None, THEN conjunct1,
        rule_format, of "[ex_block [3] [3]]" "ex_block [8] [3]" "[]" "[c]"]
      one ex_block_mismatch ex_block_to_string
    by (simp add: ex_body_simps)
  have h: "read ex_deps (ex_response [ex_block [9] [9]]
             (Some (Error ''unexpected end of data''))) = Inl (Error ''failed to decode claim'')"
    using inst [of "[ex_block [9] [9]]" "Some (Error ''unexpected end of data'')",
        THEN conjunct2, THEN conjunct1,
        rule_format, of "[]" "ex_block [9] [9]" "[]" "[]" "Error ''failed to decode claim''"]
      ex_block_verified [of "[9]"] d9
    by (simp add: ex_body_simps)
  have k: "read ex_deps (ex_cut_response [ex_block [9] [9]]
             (Error ''unexpected end of data'') 1) = Inr []"
    using cut [of "[ex_block [9] [9]]" "Error ''unexpected end of data''" 1,
        THEN conjunct2, THEN conjunct2, THEN conjunct1, rule_format,
        of "[]" "ex_block [9] [9]" "[]" "Error ''failed to decode claim''"
          "Error ''unexpected end of data''"] w9
    by (simp add: ex_body_simps)
  have k': "read ex_deps (ex_cut_response [ex_block [9] [9], ex_block [3] [3]]
             (Error ''unexpected end of data'') 1) = Inr []"
    using cut [of "[ex_block [9] [9], ex_block [3] [3]]" "Error ''unexpected end of data''" 1,
        THEN conjunct2, THEN conjunct2, THEN conjunct1, rule_format,
        of "[]" "ex_block [9] [9]" "[]" "Error ''failed to decode claim''"
          "Error ''unexpected end of data''"] w9
    by (simp add: ex_body_simps)
  have l: "read ex_deps (ex_cut_response [ex_block [3] [3], ex_block [9] [9]]
             (Error ''unexpected end of data'') 2) = Inl (Error ''unexpected end of data'')"
    using cut [of "[ex_block [3] [3], ex_block [9] [9]]" "Error ''unexpected end of data''" 2,
        THEN conjunct2, THEN conjunct2, THEN conjunct1, rule_format,
        of "[ex_block [3] [3]]" "ex_block [9] [9]" "[c]" "Error ''failed to decode claim''"
          "Error ''unexpected end of data''"] w9 one
    by (simp add: ex_body_simps)
  have d: "read ex_deps (ex_response [ex_block [3] [3]] None) = Inr [c]"
    using inst [of "[ex_block [3] [3]]" None, THEN conjunct2, THEN conjunct2, THEN conjunct2,
        rule_format, of "[c]"] one
    by (simp add: ex_body_simps)
  have e: "read ex_deps (ex_response [] (Some (Error ''unexpected end of data''))) = Inr []"
    using inst [of "[]" "Some (Error ''unexpected end of data'')", THEN conjunct2,
        THEN conjunct2, THEN conjunct2, rule_format, of "[]"]
    by (simp add: ex_body_simps)
  have f: "read ex_deps (ex_response [] (Some (Error ''invalid header'')))
             = Inl (Error ''invalid header'')"
    using inst [of "[]" "Some (Error ''invalid header'')", THEN conjunct2, THEN conjunct2,
        THEN conjunct2, rule_format, of "[]"]
    by (simp add: ex_body_simps)
  have g: "read ex_deps (ex_response [ex_block [3] [3]] (Some (Error ''unexpected end of data'')))
             = Inl (Error ''unexpected end of data'')"
    using inst [of "[ex_block [3] [3]]" "Some (Error ''unexpected end of data'')",
        THEN conjunct2, THEN conjunct2, THEN conjunct2, rule_format, of "[c]"] one
    by (simp add: ex_body_simps)
  from a b h k k' l d e f g show ?thesis by blast
qed

text \<open>
  C9, amended. When \<^verbatim>\<open>read\<close> returns claims, the stream ended normally and they are, in
  order, the claims decoded from the blocks of the response, the sha256 digest of the bytes
  of each block being the multihash of its link. A block that fails the check is never
  decoded or included: its write throws "hash verification failed" with its link, and a
  response that has such a block returns no claim. When \<^verbatim>\<open>read\<close> returns, the only block that
  the sink took and that is left out is the last block taken from a stream whose error
  overtook its write, with no claim returned. \<^verbatim>\<open>read\<close> throws "hash verification failed" as
  soon as the blocks before the mismatched one have been verified and decoded, unless that
  block is the last taken from a stream whose own error overtook the check.
\<close>

theorem read_only_verified_blocks:
  assumes "res_body res = Some body"
  shows "(\<forall>claims. read env res = Inr claims \<and> claims \<noteq> [] \<longrightarrow>
            car_error body = None
            \<and> list_all2 (decoded env) (car_blocks body) claims
            \<and> (\<forall>b \<in> set (car_blocks body). hash_verified env b))
         \<and> (\<forall>claims. read env res = Inr claims
               \<and> (\<exists>b \<in> set (car_blocks body). \<not> hash_verified env b) \<longrightarrow> claims = [])
         \<and> (\<forall>claims. read env res = Inr claims \<longrightarrow>
               (\<exists>pre post. sink_blocks body = pre @ post
                  \<and> list_all2 (decoded env) pre claims
                  \<and> (post = [] \<or> (claims = [] \<and> overtaken body \<and> length post = 1))))
         \<and> (\<forall>b acc. \<not> hash_verified env b \<longrightarrow>
               write_block env acc b =
                 Inl (Error (''hash verification failed: '' @ Link_toString env (blk_cid b))))
         \<and> (\<forall>pre b post cs.
               res_ok res \<and> sink_blocks body = pre @ b # post
               \<and> list_all2 (decoded env) pre cs \<and> \<not> hash_verified env b
               \<and> (post \<noteq> [] \<or> \<not> overtaken body) \<longrightarrow>
               read env res =
                 Inl (Error (''hash verification failed: '' @ Link_toString env (blk_cid b))))"
proof -
  have inv: "\<exists>pre post. sink_blocks body = pre @ post
               \<and> list_all2 (decoded env) pre claims
               \<and> (post = [] \<or> (claims = [] \<and> overtaken body \<and> length post = 1))
               \<and> (claims \<noteq> [] \<longrightarrow> car_error body = None)"
    if r: "read env res = Inr claims" for claims
  proof -
    from r have ok: "res_ok res" by (rule read_Inr_ok)
    obtain out e where
      p: "pipeTo env (sink_blocks body) (car_error body) (overtaken body) [] = (out, e)"
      by (cases "pipeTo env (sink_blocks body) (car_error body) (overtaken body) []")
        blast
    from read_unfold [OF ok assms p] r have out: "out = claims"
      by (auto split: option.splits if_splits)
    from read_unfold [OF ok assms p] r have none: "claims \<noteq> [] \<longrightarrow> e = None"
      by (auto split: option.splits if_splits)
    from pipeTo_cases [OF p] show ?thesis
    proof
      assume "\<exists>cs. list_all2 (decoded env) (sink_blocks body) cs \<and> out = [] @ cs
                \<and> e = car_error body"
      with out none have "sink_blocks body = sink_blocks body @ []
                 \<and> list_all2 (decoded env) (sink_blocks body) claims
                 \<and> (claims \<noteq> [] \<longrightarrow> car_error body = None)" by auto
      then show ?thesis by blast
    next
      assume "\<exists>pre b post cs e'. sink_blocks body = pre @ b # post
               \<and> list_all2 (decoded env) pre cs
               \<and> write_block env ([] @ cs) b = Inl e' \<and> out = [] @ cs
               \<and> e = Some (case car_error body of
                             Some stream_err \<Rightarrow>
                               if post = [] \<and> overtaken body then stream_err else e'
                           | None \<Rightarrow> e')"
      then obtain pre b post cs e' where f: "sink_blocks body = pre @ b # post"
        "list_all2 (decoded env) pre cs" "write_block env ([] @ cs) b = Inl e'" "out = cs"
        "e = Some (case car_error body of
                     Some stream_err \<Rightarrow>
                       if post = [] \<and> overtaken body then stream_err else e'
                   | None \<Rightarrow> e')"
        by auto
      from write_block_Inl [OF f(3)] have m: "message e' \<noteq> ''unexpected end of data''" by simp
      from read_unfold [OF ok assms p] r f(5) m out
      have t: "claims = [] \<and> post = [] \<and> overtaken body"
        by (auto split: option.splits if_splits)
      with f(2,4) out have "pre = []" by simp
      with f(1) t have "sink_blocks body = [] @ [b] \<and> list_all2 (decoded env) [] claims
          \<and> claims = [] \<and> overtaken body \<and> length [b] = 1"
        by simp
      then show ?thesis by blast
    qed
  qed
  have c1: "\<forall>claims. read env res = Inr claims \<and> claims \<noteq> [] \<longrightarrow>
            car_error body = None
            \<and> list_all2 (decoded env) (car_blocks body) claims
            \<and> (\<forall>b \<in> set (car_blocks body). hash_verified env b)"
  proof (intro allI impI)
    fix claims
    assume a: "read env res = Inr claims \<and> claims \<noteq> []"
    with inv [of claims] obtain pre post where d: "sink_blocks body = pre @ post"
      "list_all2 (decoded env) pre claims" "post = []" "car_error body = None" by blast
    then have "sink_blocks body = car_blocks body" by (simp add: sink_blocks_def)
    with d have l: "list_all2 (decoded env) (car_blocks body) claims" by simp
    from decoded_all_verified [OF l] l d(4)
    show "car_error body = None
            \<and> list_all2 (decoded env) (car_blocks body) claims
            \<and> (\<forall>b \<in> set (car_blocks body). hash_verified env b)"
      by blast
  qed
  have c2: "\<forall>claims. read env res = Inr claims
               \<and> (\<exists>b \<in> set (car_blocks body). \<not> hash_verified env b) \<longrightarrow> claims = []"
    using c1 by blast
  have c3: "\<forall>claims. read env res = Inr claims \<longrightarrow>
               (\<exists>pre post. sink_blocks body = pre @ post
                  \<and> list_all2 (decoded env) pre claims
                  \<and> (post = [] \<or> (claims = [] \<and> overtaken body \<and> length post = 1)))"
    using inv by blast
  have c4: "\<forall>b acc. \<not> hash_verified env b \<longrightarrow>
               write_block env acc b =
                 Inl (Error (''hash verification failed: '' @ Link_toString env (blk_cid b)))"
    by (simp add: write_block_mismatch)
  have c5: "\<forall>pre b post cs.
               res_ok res \<and> sink_blocks body = pre @ b # post
               \<and> list_all2 (decoded env) pre cs \<and> \<not> hash_verified env b
               \<and> (post \<noteq> [] \<or> \<not> overtaken body) \<longrightarrow>
               read env res =
                 Inl (Error (''hash verification failed: '' @ Link_toString env (blk_cid b)))"
  proof (intro allI impI)
    fix pre b post cs
    assume a: "res_ok res \<and> sink_blocks body = pre @ b # post
               \<and> list_all2 (decoded env) pre cs \<and> \<not> hash_verified env b
               \<and> (post \<noteq> [] \<or> \<not> overtaken body)"
    let ?e = "Error (''hash verification failed: '' @ Link_toString env (blk_cid b))"
    from a have w: "write_block env ([] @ cs) b = Inl ?e" by (simp add: write_block_mismatch)
    from a have pre: "list_all2 (decoded env) pre cs" by simp
    from a have "(case car_error body of
                        Some stream_err \<Rightarrow>
                          if post = [] \<and> overtaken body then stream_err else ?e
                      | None \<Rightarrow> ?e) = ?e"
      by (auto split: option.splits)
    with pipeTo_fail [OF pre w, of post "car_error body" "overtaken body"] a
    have "pipeTo env (sink_blocks body) (car_error body) (overtaken body) []
            = ([] @ cs, Some ?e)" by simp
    from a read_unfold [OF _ assms this] show "read env res = Inl ?e"
      using write_block_Inl [OF w] by simp
  qed
  from c1 c2 c3 c4 c5 show ?thesis by (intro conjI)
qed

theorem read_only_verified_blocks_witness:
  "(\<exists>c. read ex_deps (ex_response [ex_block [3] [3]] None) = Inr [c]
        \<and> decoded ex_deps (ex_block [3] [3]) c)
   \<and> hash_verified ex_deps (ex_block [3] [3])
   \<and> \<not> hash_verified ex_deps (ex_block [8] [3])
   \<and> read ex_deps (ex_response [ex_block [3] [3], ex_block [8] [3]] None)
       = Inl (Error ''hash verification failed: bafyexample'')
   \<and> read ex_deps (ex_cut_response [ex_block [8] [3]] (Error ''unexpected end of data'') 1)
       = Inr []"
proof -
  obtain c where c: "decoded ex_deps (ex_block [3] [3]) c" using ex_decoded_3 by blast
  then have one: "list_all2 (decoded ex_deps) [ex_block [3] [3]] [c]" by simp
  note inst = read_only_verified_blocks [where env = ex_deps, OF ex_response_simps(2)]
  note cut = read_only_verified_blocks [where env = ex_deps, OF ex_cut_response_simps(2)]
  have p: "pipeTo ex_deps [ex_block [3] [3]] None False [] = ([] @ [c], None)"
    using pipeTo_all [OF one, of None False "[]"] by simp
  have r: "read ex_deps (ex_response [ex_block [3] [3]] None) = Inr [c]"
    using read_unfold [OF ex_response_simps, of ex_deps "[ex_block [3] [3]]" None "[c]" None] p
    by (simp add: ex_body_simps)
  from inst [of "[ex_block [3] [3]]" None, THEN conjunct1, rule_format, of "[c]"] r
  have v: "hash_verified ex_deps (ex_block [3] [3])" by simp
  have m: "read ex_deps (ex_response [ex_block [3] [3], ex_block [8] [3]] None)
             = Inl (Error ''hash verification failed: bafyexample'')"
    using inst [of "[ex_block [3] [3], ex_block [8] [3]]" None, THEN conjunct2, THEN conjunct2,
        THEN conjunct2, THEN conjunct2, rule_format,
        of "[ex_block [3] [3]]" "ex_block [8] [3]" "[]" "[c]"]
      one ex_block_mismatch ex_block_to_string ex_response_simps(1)
    by (simp add: ex_body_simps)
  have w0: "write_block ex_deps ([] @ []) (ex_block [8] [3])
              = Inl (Error (''hash verification failed: '' @ ''bafyexample''))"
    using cut [of "[]" "Error ''x''" 0, THEN conjunct2, THEN conjunct2, THEN conjunct2,
        THEN conjunct1, rule_format, OF ex_block_mismatch, of "[]"] ex_block_to_string
    by simp
  have "pipeTo ex_deps ([] @ ex_block [8] [3] # [])
          (Some (Error ''unexpected end of data'')) True []
          = ([] @ [], Some (Error ''unexpected end of data''))"
    using pipeTo_fail [OF _ w0, of "[]" "[]" "Some (Error ''unexpected end of data'')" True]
    by simp
  then have n: "read ex_deps (ex_cut_response [ex_block [8] [3]]
                  (Error ''unexpected end of data'') 1) = Inr []"
    using read_unfold [OF ex_cut_response_simps,
        of ex_deps "[ex_block [8] [3]]" "Error ''unexpected end of data''" 1 "[]"
          "Some (Error ''unexpected end of data'')"]
    by (simp add: ex_body_simps)
  from r c v m n ex_block_mismatch show ?thesis by blast
qed

end
